theory Spec2Isabelle
  imports Complex_Main
begin

section \<open>Values, errors and the ephemeris provider\<close>

text \<open>
  The module \<^verbatim>\<open>hermpy/trajectory.py\<close> computes with numpy \<^verbatim>\<open>float64\<close> values. They
  are idealised here as \<^typ>\<open>real\<close> numbers: infinities and NaN are not part of the
  model, and rounding is modelled only for the sampled epochs of the trajectory sampler,
  where it decides a comparison. A position is the 3-vector that \<^verbatim>\<open>spice.spkpos\<close> returns.

  Every exception of the Python code is a value of \<open>py_error\<close>; a function that can
  raise returns \<open>py_error + 'a\<close>, with \<open>Inl\<close> for the exception.
\<close>

datatype py_error = SpiceError | ValueError | IndexError | OverflowError

type_synonym vec3 = "real \<times> real \<times> real"

text \<open>
  The SPICE toolkit is an external collaborator and is a parameter of every function.
  \<open>str2et\<close> receives what \<^verbatim>\<open>strftime("%Y-%m-%d %H:%M:%S")\<close> keeps of a timestamp, its
  whole seconds; \<open>spkpos\<close> is the scalar query \<^verbatim>\<open>spkpos(targ, et, ref, abcorr, obs)\<close>.
  Either may raise.
\<close>

record provider =
  str2et :: "int \<Rightarrow> py_error + real"
  spkpos :: "string \<Rightarrow> real \<Rightarrow> string \<Rightarrow> string \<Rightarrow> string \<Rightarrow> py_error + vec3"

text \<open>
  A \<^verbatim>\<open>datetime\<close> is its number of microseconds since 0001-01-01 00:00:00, a
  \<^verbatim>\<open>timedelta\<close> a number of microseconds. \<open>strftime\<close> with the format above drops the
  microseconds.
\<close>

definition strftime :: "int \<Rightarrow> int" where
  "strftime date = date div 1000000"

text \<open>An action applied to each element in order; the first exception ends the walk.\<close>

fun traverse :: "('a \<Rightarrow> py_error + 'b) \<Rightarrow> 'a list \<Rightarrow> py_error + 'b list" where
  "traverse f [] = Inr []"
| "traverse f (x # xs) =
     (case f x of
        Inl e \<Rightarrow> Inl e
      | Inr y \<Rightarrow> (case traverse f xs of Inl e \<Rightarrow> Inl e | Inr ys \<Rightarrow> Inr (y # ys)))"

text \<open>\<^verbatim>\<open>xs[i]\<close> for a non-negative literal index.\<close>

definition py_index :: "'a list \<Rightarrow> nat \<Rightarrow> py_error + 'a" where
  "py_index xs i = (if i < length xs then Inr (xs ! i) else Inl IndexError)"

section \<open>The aberration transform\<close>

text \<open>\<^verbatim>\<open>np.matmul\<close> of a 3 by 3 matrix, given by its rows, and a 3-vector.\<close>

definition dot3 :: "vec3 \<Rightarrow> vec3 \<Rightarrow> real" where
  "dot3 u v = (case u of (a, b, c) \<Rightarrow> case v of (x, y, z) \<Rightarrow> a * x + b * y + c * z)"

definition matmul :: "vec3 \<times> vec3 \<times> vec3 \<Rightarrow> vec3 \<Rightarrow> vec3" where
  "matmul m v = (case m of (r0, r1, r2) \<Rightarrow> (dot3 r0 v, dot3 r1 v, dot3 r2 v))"

definition Aberrate_Position :: "provider \<Rightarrow> vec3 \<Rightarrow> real \<Rightarrow> py_error + vec3" where
  "Aberrate_Position p position spice_date =
     (case spkpos p ''MERCURY'' spice_date ''J2000'' ''NONE'' ''SUN'' of
        Inl e \<Rightarrow> Inl e
      | Inr mercury_position \<Rightarrow>
          (case mercury_position of (m0, m1, m2) \<Rightarrow>
            let mercury_distance = sqrt (m0 ^ 2 + m1 ^ 2 + m2 ^ 2);
                a = 57909050 * 1000;
                M = 19891 * 10 ^ 26;
                G = 66743 / 10 ^ 15;
                orbital_velocity = sqrt (G * M * ((2 / mercury_distance) - (1 / a)));
                aberration_angle = arctan (orbital_velocity / 400000);
                aberration_angle = aberration_angle * (pi / 180);
                rotation_matrix =
                  ((cos aberration_angle, - sin aberration_angle, 0),
                   (sin aberration_angle, cos aberration_angle, 0),
                   (0, 0, 1))
            in Inr (matmul rotation_matrix position)))"

section \<open>The trajectory sampler\<close>

text \<open>
  The epochs are computed in \<^verbatim>\<open>float64\<close>, and how the last one rounds decides whether it
  stays below the end epoch; so this one computation is modelled with its rounding.
  \<open>float64\<close> rounds a real number to the nearest double, ties to the even significand:
  for \<open>2 ^ e \<le> \<bar>x\<bar> < 2 ^ (e + 1)\<close> the doubles are the multiples of \<open>2 ^ (e - 52)\<close>. The
  exponent range is taken unbounded (no overflow, no subnormal numbers).
\<close>

definition round_half_even :: "real \<Rightarrow> int" where
  "round_half_even y =
     (let f = \<lfloor>y\<rfloor>; r = y - real_of_int f
      in if r < 1 / 2 then f else if r > 1 / 2 then f + 1 else if even f then f else f + 1)"

definition float64 :: "real \<Rightarrow> real" where
  "float64 x =
     (if x = 0 then 0
      else let e = \<lfloor>log 2 \<bar>x\<bar>\<rfloor>; ulp = 2 powr (real_of_int e - 52)
           in real_of_int (round_half_even (x / ulp)) * ulp)"

text \<open>
  The list comprehension \<^verbatim>\<open>[x * (et_two - et_one) / steps + et_one for x in range(steps)]\<close>:
  the difference, the product, the quotient and the sum are each rounded, and the integers
  \<open>x\<close> and \<open>steps\<close> are converted to doubles where they meet a double.
\<close>

definition sample_times :: "real \<Rightarrow> real \<Rightarrow> int \<Rightarrow> real list" where
  "sample_times et_one et_two steps =
     map (\<lambda>x. float64
                (float64 (float64 (float64 (real_of_int x) * float64 (et_two - et_one))
                          / float64 (real_of_int steps))
                 + et_one))
       [0..steps - 1]"

text \<open>\<^verbatim>\<open>positions[:, 2] += 479\<close> on one row.\<close>

definition shift_row :: "vec3 \<Rightarrow> vec3" where
  "shift_row row = (case row of (x, y, z) \<Rightarrow> (x, y, z + 479))"

text \<open>
  \<open>spkpos\<close> on a list of epochs queries them one by one, raises at the first epoch that
  SPICE cannot resolve, and gives an array of shape \<open>(N, 3)\<close> (taken to hold for \<open>N = 0\<close>
  too, which no property below depends on). With \<open>aberrate\<close> set the array is rebuilt
  from the list of rotated rows; from an empty list \<^verbatim>\<open>np.array\<close> builds an array of
  shape \<open>(0,)\<close>, on which the slice \<^verbatim>\<open>positions[:, 2]\<close> of the MSM branch raises
  IndexError. A frame string other than MSO and MSM falls through to the final
  \<^verbatim>\<open>return positions\<close>.
\<close>

definition Get_Trajectory ::
  "provider \<Rightarrow> string \<Rightarrow> int list \<Rightarrow> int \<Rightarrow> string \<Rightarrow> bool \<Rightarrow> py_error + vec3 list" where
  "Get_Trajectory p spacecraft dates steps frame aberrate =
     (case py_index dates 0 of Inl e \<Rightarrow> Inl e | Inr date0 \<Rightarrow>
      case str2et p (strftime date0) of Inl e \<Rightarrow> Inl e | Inr et_one \<Rightarrow>
      case py_index dates 1 of Inl e \<Rightarrow> Inl e | Inr date1 \<Rightarrow>
      case str2et p (strftime date1) of Inl e \<Rightarrow> Inl e | Inr et_two \<Rightarrow>
      let times_arr = sample_times et_one et_two steps in
      case traverse (\<lambda>t. spkpos p spacecraft t ''BC_MSO'' ''NONE'' ''MERCURY'') times_arr of
        Inl e \<Rightarrow> Inl e
      | Inr positions \<Rightarrow>
      case (if aberrate
            then traverse (\<lambda>(position, t). Aberrate_Position p position t) (zip positions times_arr)
            else Inr positions) of
        Inl e \<Rightarrow> Inl e
      | Inr positions \<Rightarrow>
          if frame = ''MSO'' then Inr positions
          else if frame = ''MSM'' then
            (if aberrate \<and> positions = [] then Inl IndexError
             else Inr (map shift_row positions))
          else Inr positions)"

section \<open>Range from Mercury\<close>

text \<open>
  \<open>Get_Range_From_Date\<close> accepts one \<^verbatim>\<open>datetime\<close> or a list of them, and returns one
  distance or a list of them.
\<close>

datatype dates_arg = OneDate int | DateList "int list"

datatype range_result = Scalar real | Distances "real list"

definition range_at :: "provider \<Rightarrow> string \<Rightarrow> int \<Rightarrow> py_error + real" where
  "range_at p spacecraft date =
     (case str2et p (strftime date) of Inl e \<Rightarrow> Inl e | Inr et \<Rightarrow>
      case spkpos p spacecraft et ''BC_MSO'' ''NONE'' ''MERCURY'' of
        Inl e \<Rightarrow> Inl e
      | Inr position \<Rightarrow>
          (case position of (p0, p1, p2) \<Rightarrow> Inr (sqrt (p0 ^ 2 + p1 ^ 2 + p2 ^ 2))))"

definition Get_Range_From_Date :: "provider \<Rightarrow> string \<Rightarrow> dates_arg \<Rightarrow> py_error + range_result" where
  "Get_Range_From_Date p spacecraft dates =
     (let dates = (case dates of OneDate d \<Rightarrow> [d] | DateList ds \<Rightarrow> ds) in
      case traverse (range_at p spacecraft) dates of
        Inl e \<Rightarrow> Inl e
      | Inr distances \<Rightarrow>
          if length distances = 1 then Inr (Scalar (distances ! 0))
          else Inr (Distances distances))"

section \<open>Calendar arithmetic\<close>

text \<open>
  \<^verbatim>\<open>datetime.max\<close> is 9999-12-31 23:59:59.999999, day 3652059 of the proleptic calendar.
  Adding a \<^verbatim>\<open>timedelta\<close> to a \<^verbatim>\<open>datetime\<close> raises OverflowError when the result
  leaves the years 1 to 9999.
\<close>

definition datetime_max :: int where
  "datetime_max = 3652059 * 86400 * 1000000 - 1"

definition datetime_add :: "int \<Rightarrow> int \<Rightarrow> py_error + int" where
  "datetime_add t delta =
     (if 0 \<le> t + delta \<and> t + delta \<le> datetime_max then Inr (t + delta) else Inl OverflowError)"

text \<open>
  \<^verbatim>\<open>timedelta / int\<close> divides the microseconds and rounds to the nearest one, halves to
  even (\<^verbatim>\<open>_divide_and_round\<close> of the \<^verbatim>\<open>datetime\<close> module). Python's \<^verbatim>\<open>divmod\<close> floors,
  as \<open>div\<close> and \<open>mod\<close> on \<^typ>\<open>int\<close> do.
\<close>

definition divide_and_round :: "int \<Rightarrow> int \<Rightarrow> int" where
  "divide_and_round a b =
     (let q = a div b; r = a mod b; r = r * 2;
          greater_than_half = (if b > 0 then r > b else r < b)
      in if greater_than_half \<or> (r = b \<and> q mod 2 = 1) then q + 1 else q)"

section \<open>Peak detection\<close>

text \<open>
  \<^verbatim>\<open>scipy.signal.find_peaks(altitudes)\<close> is SciPy's routine, not the repository's. Called
  with no condition, as here, it returns the midpoints found by SciPy's
  \<^verbatim>\<open>_local_maxima_1d\<close>, whose loop the two functions below follow: the pointer \<open>i\<close> walks
  from the second sample to the one before the last; where the previous sample is smaller,
  \<open>i_ahead\<close> runs over the samples equal to \<open>x[i]\<close>, and a maximum is recorded, at the
  middle of the run (rounded down), if the next unequal sample is smaller; the walk then
  resumes after \<open>i_ahead\<close>. So a flat peak, several samples of equal height wide, is
  reported at its middle sample.
\<close>

function look_ahead :: "real list \<Rightarrow> nat \<Rightarrow> nat \<Rightarrow> nat" where
  "look_ahead x i i_ahead =
     (if i_ahead < length x - 1 \<and> x ! i_ahead = x ! i
      then look_ahead x i (i_ahead + 1) else i_ahead)"
  by pat_completeness auto
termination
  by (relation "measure (\<lambda>(x, i, i_ahead). length x - i_ahead)") auto

declare look_ahead.simps [simp del]

lemma look_ahead_ge: "i_ahead \<le> look_ahead x i i_ahead"
proof (induction x i i_ahead rule: look_ahead.induct)
  case (1 x i i_ahead)
  show ?case
  proof (cases "i_ahead < length x - 1 \<and> x ! i_ahead = x ! i")
    case True
    with 1 have "i_ahead + 1 \<le> look_ahead x i (i_ahead + 1)" by blast
    with True show ?thesis by (subst look_ahead.simps) simp
  next
    case False
    then show ?thesis by (subst look_ahead.simps) auto
  qed
qed

function local_maxima_1d :: "real list \<Rightarrow> nat \<Rightarrow> nat list" where
  "local_maxima_1d x i =
     (if i < length x - 1 then
        (if x ! (i - 1) < x ! i then
           (let i_ahead = look_ahead x i (i + 1) in
            if x ! i_ahead < x ! i
            then ((i + (i_ahead - 1)) div 2) # local_maxima_1d x (i_ahead + 1)
            else local_maxima_1d x (i + 1))
         else local_maxima_1d x (i + 1))
      else [])"
  by pat_completeness auto
termination
proof (relation "measure (\<lambda>(x, i). length x - i)", goal_cases)
  case 1
  show ?case by simp
next
  case (2 x i i_ahead)
  have "i + 1 \<le> look_ahead x i (i + 1)" by (rule look_ahead_ge)
  with 2 show ?case by auto
next
  case (3 x i i_ahead)
  then show ?case by auto
next
  case (4 x i)
  then show ?case by auto
qed

declare local_maxima_1d.simps [simp del]

definition find_peaks :: "real list \<Rightarrow> nat list" where
  "find_peaks x = local_maxima_1d x 1"

text \<open>
  \<^verbatim>\<open>np.argmin\<close>: the position of the first minimum; ValueError on an empty sequence.
\<close>

fun argmin_scan :: "int list \<Rightarrow> nat \<Rightarrow> int \<Rightarrow> nat \<Rightarrow> nat" where
  "argmin_scan [] i mp min_ind = min_ind"
| "argmin_scan (v # vs) i mp min_ind =
     (if v < mp then argmin_scan vs (i + 1) v i else argmin_scan vs (i + 1) mp min_ind)"

definition argmin :: "int list \<Rightarrow> py_error + nat" where
  "argmin vs = (case vs of [] \<Rightarrow> Inl ValueError | v # rest \<Rightarrow> Inr (argmin_scan rest 1 v 0))"

section \<open>The apoapsis finder\<close>

text \<open>The altitude of the spacecraft above Mercury's centre at a calendar time.\<close>

definition altitude_at :: "provider \<Rightarrow> string \<Rightarrow> int \<Rightarrow> py_error + real" where
  "altitude_at p spacecraft current_time =
     (case str2et p (strftime current_time) of Inl e \<Rightarrow> Inl e | Inr et \<Rightarrow>
      case spkpos p spacecraft et ''BC_MSO'' ''NONE'' ''MERCURY'' of
        Inl e \<Rightarrow> Inl e
      | Inr position \<Rightarrow>
          (case position of (p0, p1, p2) \<Rightarrow> Inr (sqrt (p0 ^ 2 + p1 ^ 2 + p2 ^ 2))))"

text \<open>
  The sampling loop \<^verbatim>\<open>while current_time < end_time\<close> of both finders. With a zero
  \<open>time_delta\<close> it does not end: the result \<open>None\<close> stands for a call that never returns.
\<close>

partial_function (option) sample_altitudes ::
  "provider \<Rightarrow> string \<Rightarrow> int \<Rightarrow> int \<Rightarrow> int \<Rightarrow> real list \<Rightarrow> int list
     \<Rightarrow> (py_error + real list \<times> int list) option" where
  "sample_altitudes p spacecraft current_time end_time time_delta altitudes times_arr =
     (if current_time < end_time then
        (case altitude_at p spacecraft current_time of
           Inl e \<Rightarrow> Some (Inl e)
         | Inr current_altitude \<Rightarrow>
             (case datetime_add current_time time_delta of
                Inl e \<Rightarrow> Some (Inl e)
              | Inr next_time \<Rightarrow>
                  sample_altitudes p spacecraft next_time end_time time_delta
                    (altitudes @ [current_altitude]) (times_arr @ [current_time])))
      else Some (Inr (altitudes, times_arr)))"

text \<open>
  The reduction loop of \<open>Get_All_Apoapsis_In_Range\<close>. \<^verbatim>\<open>np.delete(a, 0)\<close> and
  \<^verbatim>\<open>np.delete(a, -1)\<close> drop the first and the last element; indexing or deleting in
  an empty array raises IndexError.
\<close>

function reduce_apoapses ::
  "int \<Rightarrow> int \<Rightarrow> int \<Rightarrow> real list \<Rightarrow> int list \<Rightarrow> py_error + real list \<times> int list" where
  "reduce_apoapses start_time end_time number_of_orbits_to_include apoapsis_altitudes apoapsis_times =
     (if int (length apoapsis_altitudes) > number_of_orbits_to_include then
        (if apoapsis_times = [] \<or> apoapsis_altitudes = [] then Inl IndexError
         else
           let first_apoapsis_time = hd apoapsis_times;
               last_apoapsis_time = last apoapsis_times;
               midpoint = start_time + divide_and_round (end_time - start_time) 2;
               first_time_difference = \<bar>first_apoapsis_time - midpoint\<bar>;
               last_time_difference = \<bar>last_apoapsis_time - midpoint\<bar>
           in if first_time_difference > last_time_difference then
                reduce_apoapses start_time end_time number_of_orbits_to_include
                  (tl apoapsis_altitudes) (tl apoapsis_times)
              else if last_time_difference > first_time_difference then
                reduce_apoapses start_time end_time number_of_orbits_to_include
                  (butlast apoapsis_altitudes) (butlast apoapsis_times)
              else Inl ValueError)
      else Inr (apoapsis_altitudes, apoapsis_times))"
  by pat_completeness auto
termination
  by (relation "measure (\<lambda>(s, e, n, alts, ts). length alts)") auto

declare reduce_apoapses.simps [simp del]

text \<open>
  The \<open>plot\<close> flag only draws a figure and is left out of both finders. The arrays of
  altitudes and times have one length, and every index that \<open>find_peaks\<close> gives lies inside
  them, so the fancy indexing \<^verbatim>\<open>np.array(altitudes)[peak_indices]\<close> cannot raise.
\<close>

definition Get_All_Apoapsis_In_Range ::
  "provider \<Rightarrow> int \<Rightarrow> int \<Rightarrow> int \<Rightarrow> int \<Rightarrow> string
     \<Rightarrow> (py_error + real list \<times> int list) option" where
  "Get_All_Apoapsis_In_Range p start_time end_time time_delta number_of_orbits_to_include spacecraft =
     (case sample_altitudes p spacecraft start_time end_time time_delta [] [] of
        None \<Rightarrow> None
      | Some (Inl e) \<Rightarrow> Some (Inl e)
      | Some (Inr (altitudes, times_arr)) \<Rightarrow>
          let peak_indices = find_peaks altitudes;
              apoapsis_altitudes = map (\<lambda>i. altitudes ! i) peak_indices;
              apoapsis_times = map (\<lambda>i. times_arr ! i) peak_indices
          in if number_of_orbits_to_include > 0
             then Some (reduce_apoapses start_time end_time number_of_orbits_to_include
                          apoapsis_altitudes apoapsis_times)
             else Some (Inr (apoapsis_altitudes, apoapsis_times)))"

definition Get_Nearest_Apoapsis ::
  "provider \<Rightarrow> int \<Rightarrow> int \<Rightarrow> int \<Rightarrow> string \<Rightarrow> (py_error + int \<times> real) option" where
  "Get_Nearest_Apoapsis p time time_delta time_limit spacecraft =
     (case datetime_add time (- time_limit) of Inl e \<Rightarrow> Some (Inl e) | Inr search_start \<Rightarrow>
      case datetime_add time time_limit of Inl e \<Rightarrow> Some (Inl e) | Inr search_end \<Rightarrow>
      case sample_altitudes p spacecraft search_start search_end time_delta [] [] of
        None \<Rightarrow> None
      | Some (Inl e) \<Rightarrow> Some (Inl e)
      | Some (Inr (altitudes, times_arr)) \<Rightarrow>
          let peak_indices = find_peaks altitudes;
              time_distances = map (\<lambda>i. \<bar>time - times_arr ! i\<bar>) peak_indices
          in case argmin time_distances of
               Inl e \<Rightarrow> Some (Inl e)
             | Inr k \<Rightarrow>
                 let closest_apoapsis_index = peak_indices ! k
                 in Some (Inr (times_arr ! closest_apoapsis_index, altitudes ! closest_apoapsis_index)))"

section \<open>A synthetic ephemeris\<close>

text \<open>
  A provider for test doubles: \<open>str2et\<close> gives the whole seconds of the timestamp as the
  epoch, and every body sits on the x axis at \<open>f et\<close>, so that its distance is \<open>\<bar>f et\<bar>\<close>.
\<close>

definition synthetic_provider :: "(real \<Rightarrow> real) \<Rightarrow> provider" where
  "synthetic_provider f =
     \<lparr>str2et = (\<lambda>seconds. Inr (real_of_int seconds)),
      spkpos = (\<lambda>targ et ref abcorr obs. Inr (f et, 0, 0))\<rparr>"

section \<open>Walks over lists\<close>

lemma traverse_length: "traverse f xs = Inr ys \<Longrightarrow> length ys = length xs"
  by (induction xs arbitrary: ys) (auto split: sum.splits)

lemma traverse_nth: "traverse f xs = Inr ys \<Longrightarrow> i < length xs \<Longrightarrow> f (xs ! i) = Inr (ys ! i)"
proof (induction xs arbitrary: ys i)
  case Nil
  then show ?case by simp
next
  case (Cons x xs)
  then show ?case by (cases i) (auto split: sum.splits)
qed

lemma traverse_ok: "\<forall>x\<in>set xs. \<exists>y. f x = Inr y \<Longrightarrow> \<exists>ys. traverse f xs = Inr ys"
  by (induction xs) (auto split: sum.splits)


section \<open>Properties of the aberration transform\<close>

lemma matmul_rotation:
  "matmul ((c, - s, 0), (s, c, 0), (0, 0, 1)) (x, y, z) = (c * x - s * y, s * x + c * y, z)"
  by (simp add: matmul_def dot3_def)

lemma Aberrate_Position_returns:
  "spkpos p ''MERCURY'' t ''J2000'' ''NONE'' ''SUN'' = Inr m \<Longrightarrow> \<exists>q. Aberrate_Position p v t = Inr q"
  by (cases m) (simp add: Aberrate_Position_def Let_def del: split_paired_Ex)

lemma Aberrate_Position_rotation:
  assumes "Aberrate_Position p (x, y, z) t = Inr q"
  shows "\<exists>\<theta>. q = (cos \<theta> * x - sin \<theta> * y, sin \<theta> * x + cos \<theta> * y, z)"
  using assms unfolding Aberrate_Position_def Let_def
  by (auto simp only: matmul_rotation sum.case prod.case split: sum.splits prod.splits)

text \<open>
  C1. Where SPICE resolves Mercury's position \<open>(m0, m1, m2)\<close> relative to the Sun at the
  epoch, \<open>Aberrate_Position\<close> rotates \<open>(x, y, z)\<close> about the third axis by the angle
  \<open>arctan (v / 400000) * (pi / 180)\<close>, where \<open>v = sqrt (G * M * (2 / r - 1 / a))\<close>, \<open>r\<close> is
  the norm of \<open>(m0, m1, m2)\<close>, \<open>a = 57909050 * 1000\<close>, \<open>M = 1.9891e30\<close> and
  \<open>G = 6.6743e-11\<close>: the angle in radians is scaled once more by \<open>pi / 180\<close>.
\<close>

theorem Aberrate_Position_angle:
  assumes "spkpos p ''MERCURY'' t ''J2000'' ''NONE'' ''SUN'' = Inr (m0, m1, m2)"
  shows "Aberrate_Position p (x, y, z) t =
     (let r = sqrt (m0\<^sup>2 + m1\<^sup>2 + m2\<^sup>2);
          v = sqrt ((66743 / 10 ^ 15) * (19891 * 10 ^ 26) * (2 / r - 1 / (57909050 * 1000)));
          \<theta> = arctan (v / 400000) * (pi / 180)
      in Inr (cos \<theta> * x - sin \<theta> * y, sin \<theta> * x + cos \<theta> * y, z))"
  unfolding Aberrate_Position_def Let_def
  by (simp only: assms sum.case prod.case matmul_rotation)

theorem Aberrate_Position_angle_witness:
  "Aberrate_Position (synthetic_provider (\<lambda>t. 1)) (1, 0, 5) 0 =
     (let r = sqrt (1\<^sup>2 + 0\<^sup>2 + 0\<^sup>2);
          v = sqrt ((66743 / 10 ^ 15) * (19891 * 10 ^ 26) * (2 / r - 1 / (57909050 * 1000)));
          \<theta> = arctan (v / 400000) * (pi / 180)
      in Inr (cos \<theta> * 1 - sin \<theta> * 0, sin \<theta> * 1 + cos \<theta> * 0, 5))"
proof -
  have "spkpos (synthetic_provider (\<lambda>t. 1)) ''MERCURY'' 0 ''J2000'' ''NONE'' ''SUN'' = Inr (1, 0, 0)"
    by (simp add: synthetic_provider_def)
  then show ?thesis by (rule Aberrate_Position_angle)
qed

text \<open>
  C8. The position returned by \<open>Aberrate_Position\<close> has the third component of its input,
  for every position and epoch; and the call returns whenever SPICE resolves Mercury.
\<close>

theorem Aberrate_Position_z_unchanged:
  "(\<forall>x' y' z'. Aberrate_Position p (x, y, z) t = Inr (x', y', z') \<longrightarrow> z' = z)
   \<and> ((\<exists>m. spkpos p ''MERCURY'' t ''J2000'' ''NONE'' ''SUN'' = Inr m)
        \<longrightarrow> (\<exists>x' y'. Aberrate_Position p (x, y, z) t = Inr (x', y', z)))"
proof (intro conjI allI impI)
  fix x' y' z' assume "Aberrate_Position p (x, y, z) t = Inr (x', y', z')"
  from Aberrate_Position_rotation[OF this] show "z' = z" by auto
next
  assume "\<exists>m. spkpos p ''MERCURY'' t ''J2000'' ''NONE'' ''SUN'' = Inr m"
  then obtain q where q: "Aberrate_Position p (x, y, z) t = Inr q"
    using Aberrate_Position_returns by blast
  from Aberrate_Position_rotation[OF q] q
  show "\<exists>x' y'. Aberrate_Position p (x, y, z) t = Inr (x', y', z)" by auto
qed

theorem Aberrate_Position_z_unchanged_witness:
  "\<exists>x' y'. Aberrate_Position (synthetic_provider (\<lambda>t. 1)) (3, 4, 5) 0 = Inr (x', y', 5)"
proof -
  have "\<exists>m. spkpos (synthetic_provider (\<lambda>t. 1)) ''MERCURY'' 0 ''J2000'' ''NONE'' ''SUN'' = Inr m"
    by (simp add: synthetic_provider_def)
  with Aberrate_Position_z_unchanged[of "synthetic_provider (\<lambda>t. 1)" 3 4 5 0]
  show ?thesis by blast
qed

text \<open>
  C9. The rotation preserves length in its plane: the \<open>(x, y)\<close> projection of the position
  returned by \<open>Aberrate_Position\<close> has the magnitude of the \<open>(x, y)\<close> projection of the
  input, over the real numbers.
\<close>

theorem Aberrate_Position_orthonormal:
  "(\<forall>x' y' z'. Aberrate_Position p (x, y, z) t = Inr (x', y', z')
       \<longrightarrow> sqrt (x'\<^sup>2 + y'\<^sup>2) = sqrt (x\<^sup>2 + y\<^sup>2))
   \<and> ((\<exists>m. spkpos p ''MERCURY'' t ''J2000'' ''NONE'' ''SUN'' = Inr m)
        \<longrightarrow> (\<exists>x' y' z'. Aberrate_Position p (x, y, z) t = Inr (x', y', z')
               \<and> sqrt (x'\<^sup>2 + y'\<^sup>2) = sqrt (x\<^sup>2 + y\<^sup>2)))"
proof -
  have rot: "(c * x - s * y)\<^sup>2 + (s * x + c * y)\<^sup>2 = (c\<^sup>2 + s\<^sup>2) * (x\<^sup>2 + y\<^sup>2)"
    for c s :: real
    by (simp add: power2_eq_square algebra_simps)
  have norm: "sqrt (x'\<^sup>2 + y'\<^sup>2) = sqrt (x\<^sup>2 + y\<^sup>2)"
    if "Aberrate_Position p (x, y, z) t = Inr (x', y', z')" for x' y' z'
  proof -
    from Aberrate_Position_rotation[OF that] obtain \<theta>
      where "x' = cos \<theta> * x - sin \<theta> * y" "y' = sin \<theta> * x + cos \<theta> * y"
      by auto
    then show ?thesis using rot[of "cos \<theta>" "sin \<theta>"] by simp
  qed
  show ?thesis
  proof (intro conjI allI impI)
    fix x' y' z' assume "Aberrate_Position p (x, y, z) t = Inr (x', y', z')"
    then show "sqrt (x'\<^sup>2 + y'\<^sup>2) = sqrt (x\<^sup>2 + y\<^sup>2)" by (rule norm)
  next
    assume "\<exists>m. spkpos p ''MERCURY'' t ''J2000'' ''NONE'' ''SUN'' = Inr m"
    then obtain q where "Aberrate_Position p (x, y, z) t = Inr q"
      using Aberrate_Position_returns by blast
    then obtain x' y' z' where q: "Aberrate_Position p (x, y, z) t = Inr (x', y', z')"
      by (cases q) auto
    with norm[OF q]
    show "\<exists>x' y' z'. Aberrate_Position p (x, y, z) t = Inr (x', y', z')
            \<and> sqrt (x'\<^sup>2 + y'\<^sup>2) = sqrt (x\<^sup>2 + y\<^sup>2)"
      by blast
  qed
qed

theorem Aberrate_Position_orthonormal_witness:
  "\<exists>x' y' z'. Aberrate_Position (synthetic_provider (\<lambda>t. 1)) (3, 4, 5) 0 = Inr (x', y', z')
      \<and> sqrt (x'\<^sup>2 + y'\<^sup>2) = 5"
proof -
  have "\<exists>m. spkpos (synthetic_provider (\<lambda>t. 1)) ''MERCURY'' 0 ''J2000'' ''NONE'' ''SUN'' = Inr m"
    by (simp add: synthetic_provider_def)
  moreover have "sqrt (3\<^sup>2 + 4\<^sup>2) = (5::real)"
    by (rule real_sqrt_unique) simp_all
  ultimately show ?thesis
    using Aberrate_Position_orthonormal[of "synthetic_provider (\<lambda>t. 1)" 3 4 5 0] by auto
qed

section \<open>Properties of the trajectory sampler\<close>

lemma round_half_even_of_int: "round_half_even (real_of_int m) = m"
  by (simp add: round_half_even_def)


lemma float64_exact:
  assumes "x = real_of_int m * 2 powr real_of_int k" and "\<bar>m\<bar> < 2 ^ 53"
  shows "float64 x = x"
proof (cases "x = 0")
  case True
  then show ?thesis by (simp add: float64_def)
next
  case False
  define e where "e = \<lfloor>log 2 \<bar>x\<bar>\<rfloor>"
  have m0: "m \<noteq> 0" using False assms(1) by auto
  have absx: "\<bar>x\<bar> = real_of_int \<bar>m\<bar> * 2 powr real_of_int k"
    unfolding assms(1) by (simp add: abs_mult)
  have "real_of_int \<bar>m\<bar> < 2 ^ 53" using assms(2) by (metis of_int_less_numeral_power_cancel_iff)
  then have "\<bar>x\<bar> < 2 ^ 53 * 2 powr real_of_int k"
    unfolding absx by (intro mult_strict_right_mono) simp_all
  also have "\<dots> = 2 powr (53 + real_of_int k)"
    by (simp add: powr_add powr_realpow[symmetric])
  finally have "log 2 \<bar>x\<bar> < 53 + real_of_int k"
    using False by (simp add: log_less_iff)
  then have e: "e \<le> 52 + k" unfolding e_def by linarith
  define j where "j = nat (52 + k - e)"
  have j: "real_of_int k - (real_of_int e - 52) = real j" unfolding j_def using e by simp
  have "x / 2 powr (real_of_int e - 52) = real_of_int m * 2 powr (real_of_int k - (real_of_int e - 52))"
    unfolding assms(1) by (simp add: powr_diff)
  also have "\<dots> = real_of_int (m * 2 ^ j)"
    unfolding j by (simp add: powr_realpow)
  finally have q: "x / 2 powr (real_of_int e - 52) = real_of_int (m * 2 ^ j)" .
  have "float64 x = real_of_int (m * 2 ^ j) * 2 powr (real_of_int e - 52)"
    using False unfolding float64_def Let_def e_def[symmetric] q round_half_even_of_int by simp
  also have "\<dots> = x" using q by (simp add: field_simps)
  finally show ?thesis .
qed

lemma float64_of_int: "\<bar>m\<bar> < 2 ^ 53 \<Longrightarrow> float64 (real_of_int m) = real_of_int m"
  using float64_exact[of "real_of_int m" m 0] by simp

lemma float64_0: "float64 0 = 0"
  by (simp add: float64_def)

lemma float64_numeral: "(numeral n :: int) < 2 ^ 53 \<Longrightarrow> float64 (numeral n) = numeral n"
  using float64_of_int[of "numeral n"] by simp

lemma float64_1: "float64 1 = 1"
  using float64_of_int[of 1] by simp


lemma sample_times_length: "length (sample_times a b n) = nat n"
  by (simp add: sample_times_def)




lemma Get_Trajectory_length:
  assumes "Get_Trajectory p sc dates n frame ab = Inr ps"
  shows "length ps = nat n"
  using assms
  by (auto simp: Get_Trajectory_def Let_def sample_times_length
      split: sum.splits if_splits dest!: traverse_length)

lemma traverse_from_map: "map f xs = map Inr ys \<Longrightarrow> traverse f xs = Inr ys"
  by (induction xs arbitrary: ys) auto

lemma traverse_aberrate_ok:
  assumes "\<forall>t\<in>set ts. \<exists>m. spkpos p ''MERCURY'' t ''J2000'' ''NONE'' ''SUN'' = Inr m"
  shows "\<exists>qs. traverse (\<lambda>(position, t). Aberrate_Position p position t) (zip vs ts) = Inr qs"
proof (rule traverse_ok, clarify)
  fix v t assume "(v, t) \<in> set (zip vs ts)"
  then have "t \<in> set ts" by (rule set_zip_rightD)
  with assms obtain m where "spkpos p ''MERCURY'' t ''J2000'' ''NONE'' ''SUN'' = Inr m" by blast
  then show "\<exists>y. Aberrate_Position p v t = Inr y" by (rule Aberrate_Position_returns)
qed

lemma Get_Trajectory_returns:
  assumes e1: "str2et p (strftime date0) = Inr et_one"
    and e2: "str2et p (strftime date1) = Inr et_two"
    and N: "1 \<le> N"
    and raw: "\<forall>t\<in>set (sample_times et_one et_two N).
               \<exists>v. spkpos p spacecraft t ''BC_MSO'' ''NONE'' ''MERCURY'' = Inr v"
    and merc: "aberrate \<longrightarrow> (\<forall>t\<in>set (sample_times et_one et_two N).
               \<exists>m. spkpos p ''MERCURY'' t ''J2000'' ''NONE'' ''SUN'' = Inr m)"
  shows "\<exists>ps. Get_Trajectory p spacecraft (date0 # date1 # rest) N frame aberrate = Inr ps"
proof -
  let ?ts = "sample_times et_one et_two N"
  from traverse_ok[OF raw] obtain vs
    where vs: "traverse (\<lambda>t. spkpos p spacecraft t ''BC_MSO'' ''NONE'' ''MERCURY'') ?ts = Inr vs"
    by blast
  from traverse_length[OF vs] N have ne: "vs \<noteq> []" by (auto simp: sample_times_length)
  show ?thesis
  proof (cases aberrate)
    case False
    with vs e1 e2 show ?thesis by (simp add: Get_Trajectory_def py_index_def)
  next
    case True
    with merc traverse_aberrate_ok[of ?ts p vs] obtain qs
      where qs: "traverse (\<lambda>(position, t). Aberrate_Position p position t) (zip vs ?ts) = Inr qs"
      by blast
    from traverse_length[OF qs] traverse_length[OF vs] ne have "qs \<noteq> []" by auto
    with True vs qs e1 e2 show ?thesis by (simp add: Get_Trajectory_def py_index_def)
  qed
qed







lemma Get_Trajectory_MSM_eq:
  "Get_Trajectory p sc dates N ''MSM'' ab =
     (case Get_Trajectory p sc dates N ''MSO'' ab of
        Inl e \<Rightarrow> Inl e
      | Inr pos \<Rightarrow> if ab \<and> pos = [] then Inl IndexError else Inr (map shift_row pos))"
  by (simp add: Get_Trajectory_def Let_def split: sum.splits)

lemma Get_Trajectory_aberrated:
  assumes "Get_Trajectory p sc dates N ''MSO'' True = Inr pos"
  shows "\<exists>raw et_one et_two.
            Get_Trajectory p sc dates N ''MSO'' False = Inr raw
          \<and> str2et p (strftime (dates ! 0)) = Inr et_one
          \<and> str2et p (strftime (dates ! 1)) = Inr et_two
          \<and> length raw = length (sample_times et_one et_two N)
          \<and> traverse (\<lambda>(position, t). Aberrate_Position p position t)
               (zip raw (sample_times et_one et_two N)) = Inr pos"
  using assms
  by (auto simp: Get_Trajectory_def Let_def py_index_def split: sum.splits if_splits
      dest: traverse_length)

text \<open>
  C7. A trajectory returned in the MSM frame is the MSO trajectory of the same call with
  exactly 479 added to the third component of every sample and the first two components
  unchanged; whenever the MSO call returns a non-empty trajectory the MSM call returns too;
  and with the aberration flag set, every MSM sample is the aberrated raw sample with 479
  added to its third component afterwards.
\<close>

theorem Get_Trajectory_MSM_shift:
  "(\<forall>ps. Get_Trajectory p sc dates N ''MSM'' ab = Inr ps \<longrightarrow>
      (\<exists>mso. Get_Trajectory p sc dates N ''MSO'' ab = Inr mso \<and> length ps = length mso
         \<and> (\<forall>i<length mso. ps ! i = (case mso ! i of (x, y, z) \<Rightarrow> (x, y, z + 479)))))
   \<and> (\<forall>mso. Get_Trajectory p sc dates N ''MSO'' ab = Inr mso \<and> mso \<noteq> [] \<longrightarrow>
         (\<exists>ps. Get_Trajectory p sc dates N ''MSM'' ab = Inr ps))
   \<and> (\<forall>ps. Get_Trajectory p sc dates N ''MSM'' True = Inr ps \<longrightarrow>
        (\<exists>raw et_one et_two.
            Get_Trajectory p sc dates N ''MSO'' False = Inr raw
          \<and> str2et p (strftime (dates ! 0)) = Inr et_one
          \<and> str2et p (strftime (dates ! 1)) = Inr et_two
          \<and> length raw = length ps
          \<and> (\<forall>i<length ps. \<exists>x y z.
                Aberrate_Position p (raw ! i) (sample_times et_one et_two N ! i) = Inr (x, y, z)
              \<and> ps ! i = (x, y, z + 479))))"
proof (intro conjI allI impI)
  fix ps assume a: "Get_Trajectory p sc dates N ''MSM'' ab = Inr ps"
  then obtain pos where mso: "Get_Trajectory p sc dates N ''MSO'' ab = Inr pos"
    and ps: "ps = map shift_row pos"
    by (auto simp: Get_Trajectory_MSM_eq[of p sc dates N ab] split: sum.splits if_splits)
  have "ps ! i = (case pos ! i of (x, y, z) \<Rightarrow> (x, y, z + 479))" if "i < length pos" for i
    using that ps by (simp add: shift_row_def)
  with mso ps
  show "\<exists>mso. Get_Trajectory p sc dates N ''MSO'' ab = Inr mso \<and> length ps = length mso
         \<and> (\<forall>i<length mso. ps ! i = (case mso ! i of (x, y, z) \<Rightarrow> (x, y, z + 479)))"
    by auto
next
  fix mso assume "Get_Trajectory p sc dates N ''MSO'' ab = Inr mso \<and> mso \<noteq> []"
  then show "\<exists>ps. Get_Trajectory p sc dates N ''MSM'' ab = Inr ps"
    by (simp add: Get_Trajectory_MSM_eq[of p sc dates N ab])
next
  fix ps assume a: "Get_Trajectory p sc dates N ''MSM'' True = Inr ps"
  then obtain pos where mso: "Get_Trajectory p sc dates N ''MSO'' True = Inr pos"
    and ps: "ps = map shift_row pos"
    by (auto simp: Get_Trajectory_MSM_eq[of p sc dates N True] split: sum.splits if_splits)
  from Get_Trajectory_aberrated[OF mso] obtain raw et_one et_two where
    raw: "Get_Trajectory p sc dates N ''MSO'' False = Inr raw"
    and e: "str2et p (strftime (dates ! 0)) = Inr et_one" "str2et p (strftime (dates ! 1)) = Inr et_two"
    and len: "length raw = length (sample_times et_one et_two N)"
    and ab: "traverse (\<lambda>(position, t). Aberrate_Position p position t)
               (zip raw (sample_times et_one et_two N)) = Inr pos"
    by blast
  have lenpos: "length pos = length raw"
    using traverse_length[OF ab] len by simp
  have "\<exists>x y z. Aberrate_Position p (raw ! i) (sample_times et_one et_two N ! i) = Inr (x, y, z)
              \<and> ps ! i = (x, y, z + 479)" if i: "i < length ps" for i
  proof -
    from i ps lenpos len have i': "i < length (zip raw (sample_times et_one et_two N))" by simp
    from traverse_nth[OF ab i'] i' have
      "Aberrate_Position p (raw ! i) (sample_times et_one et_two N ! i) = Inr (pos ! i)" by simp
    moreover obtain x y z where "pos ! i = (x, y, z)" by (cases "pos ! i") auto
    moreover from i ps have "ps ! i = shift_row (pos ! i)" by simp
    ultimately show ?thesis by (simp add: shift_row_def)
  qed
  with raw e lenpos ps
  show "\<exists>raw et_one et_two.
            Get_Trajectory p sc dates N ''MSO'' False = Inr raw
          \<and> str2et p (strftime (dates ! 0)) = Inr et_one
          \<and> str2et p (strftime (dates ! 1)) = Inr et_two
          \<and> length raw = length ps
          \<and> (\<forall>i<length ps. \<exists>x y z.
                Aberrate_Position p (raw ! i) (sample_times et_one et_two N ! i) = Inr (x, y, z)
              \<and> ps ! i = (x, y, z + 479))"
    by auto
qed


theorem Get_Trajectory_MSM_shift_witness:
  "Get_Trajectory (synthetic_provider (\<lambda>t. t)) ''MESSENGER'' [0, 10000000] 2 ''MSO'' False
     = Inr [(0, 0, 0), (5, 0, 0)]
   \<and> Get_Trajectory (synthetic_provider (\<lambda>t. t)) ''MESSENGER'' [0, 10000000] 2 ''MSM'' False
     = Inr [(0, 0, 479), (5, 0, 479)]
   \<and> (\<exists>x y. Get_Trajectory (synthetic_provider (\<lambda>t. 1)) ''MESSENGER'' [0, 10000000] 1 ''MSM'' True
     = Inr [(x, y, 479)])"
proof -
  let ?p = "synthetic_provider (\<lambda>t. t)"
  let ?q = "synthetic_provider (\<lambda>t. 1)"
  let ?sc = "''MESSENGER''"
  let ?dates = "[0, 10000000] :: int list"
  have st: "sample_times 0 10 2 = [0, 5]" "sample_times 0 10 1 = [0]"
    by (simp_all add: sample_times_def upto.simps float64_0 float64_1 float64_numeral)
  have mso: "Get_Trajectory ?p ?sc ?dates 2 ''MSO'' False = Inr [(0, 0, 0), (5, 0, 0)]"
    by (simp add: Get_Trajectory_def py_index_def synthetic_provider_def strftime_def st)
  from Get_Trajectory_MSM_shift[of ?p ?sc ?dates 2 False] mso
  obtain ps where ps: "Get_Trajectory ?p ?sc ?dates 2 ''MSM'' False = Inr ps"
    by auto
  with Get_Trajectory_MSM_shift[of ?p ?sc ?dates 2 False] mso
  have "length ps = 2" "ps ! 0 = (0, 0, 479)" "ps ! 1 = (5, 0, 479)"
    by auto
  then have "ps = [(0, 0, 479), (5, 0, 479)]"
    by (cases ps; cases "tl ps") auto
  with ps have first: "Get_Trajectory ?p ?sc ?dates 2 ''MSM'' False = Inr [(0, 0, 479), (5, 0, 479)]"
    by simp
  have raw: "Get_Trajectory ?q ?sc ?dates 1 ''MSO'' False = Inr [(1, 0, 0)]"
    by (simp add: Get_Trajectory_def py_index_def synthetic_provider_def strftime_def st)
  have "\<exists>pos. Get_Trajectory ?q ?sc (0 # 10000000 # []) 1 ''MSO'' True = Inr pos"
    by (rule Get_Trajectory_returns[where et_one = 0 and et_two = 10])
      (simp_all add: synthetic_provider_def strftime_def)
  then obtain pos where pos: "Get_Trajectory ?q ?sc ?dates 1 ''MSO'' True = Inr pos" by blast
  from Get_Trajectory_length[OF pos] have "pos \<noteq> []" by auto
  with Get_Trajectory_MSM_shift[of ?q ?sc ?dates 1 True] pos
  obtain qs where qs: "Get_Trajectory ?q ?sc ?dates 1 ''MSM'' True = Inr qs" by blast
  from Get_Trajectory_length[OF qs] have len: "length qs = 1" by simp
  from Get_Trajectory_MSM_shift[of ?q ?sc ?dates 1 True] qs raw len
  obtain t x y z where "Aberrate_Position ?q (1, 0, 0) t = Inr (x, y, z)" "qs ! 0 = (x, y, z + 479)"
    by fastforce
  with Aberrate_Position_rotation[of ?q 1 0 0 t "(x, y, z)"] have "qs ! 0 = (x, y, 479)" by auto
  with len have "qs = [(x, y, 479)]" by (cases qs) auto
  with qs mso first show ?thesis by blast
qed

section \<open>Properties of the range query\<close>

text \<open>
  C10. \<open>Get_Range_From_Date\<close> returns a bare scalar distance for a single \<^verbatim>\<open>datetime\<close>
  and for a list of exactly one; for a list of \<open>n \<ge> 2\<close> dates it returns a list of \<open>n\<close>
  distances, the \<open>i\<close>-th being the distance at the \<open>i\<close>-th date, whenever SPICE resolves
  them all. A distance is the norm of the position that SPICE gives.
\<close>

theorem Get_Range_From_Date_shape:
  "Get_Range_From_Date p sc (OneDate d) =
      (case range_at p sc d of Inl e \<Rightarrow> Inl e | Inr r \<Rightarrow> Inr (Scalar r))
   \<and> Get_Range_From_Date p sc (DateList [d]) =
      (case range_at p sc d of Inl e \<Rightarrow> Inl e | Inr r \<Rightarrow> Inr (Scalar r))
   \<and> (2 \<le> length ds \<longrightarrow>
        (\<forall>res. Get_Range_From_Date p sc (DateList ds) = Inr res \<longrightarrow>
           (\<exists>rs. res = Distances rs \<and> length rs = length ds
               \<and> (\<forall>i<length ds. range_at p sc (ds ! i) = Inr (rs ! i)))))
   \<and> (2 \<le> length ds \<and> (\<forall>i<length ds. \<exists>r. range_at p sc (ds ! i) = Inr r) \<longrightarrow>
        (\<exists>rs. Get_Range_From_Date p sc (DateList ds) = Inr (Distances rs)))
   \<and> (\<forall>et x y z. str2et p (strftime d) = Inr et
          \<and> spkpos p sc et ''BC_MSO'' ''NONE'' ''MERCURY'' = Inr (x, y, z)
        \<longrightarrow> range_at p sc d = Inr (sqrt (x\<^sup>2 + y\<^sup>2 + z\<^sup>2)))"
proof (intro conjI allI impI)
  show "Get_Range_From_Date p sc (OneDate d) =
      (case range_at p sc d of Inl e \<Rightarrow> Inl e | Inr r \<Rightarrow> Inr (Scalar r))"
    by (simp add: Get_Range_From_Date_def split: sum.splits)
  show "Get_Range_From_Date p sc (DateList [d]) =
      (case range_at p sc d of Inl e \<Rightarrow> Inl e | Inr r \<Rightarrow> Inr (Scalar r))"
    by (simp add: Get_Range_From_Date_def split: sum.splits)
next
  fix res assume n: "2 \<le> length ds" and r: "Get_Range_From_Date p sc (DateList ds) = Inr res"
  from r obtain rs where rs: "traverse (range_at p sc) ds = Inr rs"
    by (auto simp: Get_Range_From_Date_def split: sum.splits)
  from traverse_length[OF rs] n have len: "length rs = length ds" "length rs \<noteq> 1" by simp_all
  with r rs have "res = Distances rs" by (simp add: Get_Range_From_Date_def)
  with len traverse_nth[OF rs]
  show "\<exists>rs. res = Distances rs \<and> length rs = length ds
               \<and> (\<forall>i<length ds. range_at p sc (ds ! i) = Inr (rs ! i))"
    by blast
next
  assume a: "2 \<le> length ds \<and> (\<forall>i<length ds. \<exists>r. range_at p sc (ds ! i) = Inr r)"
  then have "\<forall>x\<in>set ds. \<exists>y. range_at p sc x = Inr y" by (auto simp: in_set_conv_nth)
  from traverse_ok[OF this] obtain rs where rs: "traverse (range_at p sc) ds = Inr rs" by blast
  from traverse_length[OF rs] a have "length rs \<noteq> 1" by simp
  with rs show "\<exists>rs. Get_Range_From_Date p sc (DateList ds) = Inr (Distances rs)"
    by (simp add: Get_Range_From_Date_def)
next
  fix et x y z
  assume "str2et p (strftime d) = Inr et \<and> spkpos p sc et ''BC_MSO'' ''NONE'' ''MERCURY'' = Inr (x, y, z)"
  then show "range_at p sc d = Inr (sqrt (x\<^sup>2 + y\<^sup>2 + z\<^sup>2))"
    by (simp add: range_at_def)
qed

theorem Get_Range_From_Date_shape_witness:
  "Get_Range_From_Date (synthetic_provider (\<lambda>t. t)) ''MESSENGER'' (OneDate 3000000) = Inr (Scalar 3)
   \<and> Get_Range_From_Date (synthetic_provider (\<lambda>t. t)) ''MESSENGER'' (DateList [3000000]) = Inr (Scalar 3)
   \<and> Get_Range_From_Date (synthetic_provider (\<lambda>t. t)) ''MESSENGER'' (DateList [3000000, 4000000])
       = Inr (Distances [3, 4])"
proof -
  let ?p = "synthetic_provider (\<lambda>t. t)"
  let ?sc = "''MESSENGER''"
  have r: "range_at ?p ?sc 3000000 = Inr 3" "range_at ?p ?sc 4000000 = Inr 4"
    by (simp_all add: range_at_def synthetic_provider_def strftime_def)
  have ok: "2 \<le> length [3000000, 4000000 :: int]
      \<and> (\<forall>i<length [3000000, 4000000 :: int]. \<exists>r. range_at ?p ?sc ([3000000, 4000000] ! i) = Inr r)"
    using r by (simp add: less_Suc_eq)
  from Get_Range_From_Date_shape[of ?p ?sc 3000000 "[3000000, 4000000]"] ok
  obtain rs where rs: "Get_Range_From_Date ?p ?sc (DateList [3000000, 4000000]) = Inr (Distances rs)"
    by blast
  with Get_Range_From_Date_shape[of ?p ?sc 3000000 "[3000000, 4000000]"] r
  have "length rs = 2" "rs ! 0 = 3" "rs ! 1 = 4" by auto
  then have "rs = [3, 4]" by (cases rs; cases "tl rs") auto
  with rs Get_Range_From_Date_shape[of ?p ?sc 3000000 "[3000000, 4000000]"] r
  show ?thesis by simp
qed

section \<open>Properties of the peak detector\<close>

lemma look_ahead_spec:
  assumes "j \<le> length x - 1" and "\<forall>k. i \<le> k \<and> k < j \<longrightarrow> x ! k = x ! i"
  shows "look_ahead x i j \<le> length x - 1
       \<and> (\<forall>k. i \<le> k \<and> k < look_ahead x i j \<longrightarrow> x ! k = x ! i)"
  using assms
proof (induction x i j rule: look_ahead.induct)
  case (1 x i i_ahead)
  show ?case
  proof (cases "i_ahead < length x - 1 \<and> x ! i_ahead = x ! i")
    case True
    have eq: "look_ahead x i i_ahead = look_ahead x i (i_ahead + 1)"
      using True by (subst look_ahead.simps) simp
    have "\<forall>k. i \<le> k \<and> k < i_ahead + 1 \<longrightarrow> x ! k = x ! i"
    proof (intro allI impI)
      fix k assume k: "i \<le> k \<and> k < i_ahead + 1"
      show "x ! k = x ! i"
      proof (cases "k = i_ahead")
        case True
        with \<open>i_ahead < length x - 1 \<and> x ! i_ahead = x ! i\<close> show ?thesis by simp
      next
        case False
        with k have "i \<le> k \<and> k < i_ahead" by simp
        with "1.prems"(2) show ?thesis by blast
      qed
    qed
    moreover have "i_ahead + 1 \<le> length x - 1" using True by simp
    ultimately show ?thesis using "1.IH"[OF True] unfolding eq by blast
  next
    case False
    have eq: "look_ahead x i i_ahead = i_ahead"
      using False by (subst look_ahead.simps) auto
    show ?thesis unfolding eq using "1.prems" by blast
  qed
qed


lemma local_maxima_1d_spec:
  assumes "m \<in> set (local_maxima_1d x s)" and "1 \<le> s"
  shows "\<exists>l r. s \<le> l \<and> l \<le> r \<and> r + 1 < length x \<and> x ! (l - 1) < x ! l
           \<and> (\<forall>k. l \<le> k \<and> k \<le> r \<longrightarrow> x ! k = x ! l) \<and> x ! (r + 1) < x ! l
           \<and> m = (l + r) div 2"
  using assms
proof (induction x s rule: local_maxima_1d.induct)
  case (1 x i)
  let ?a = "look_ahead x i (i + 1)"
  define Q where "Q = (\<lambda>s l r. s \<le> l \<and> l \<le> r \<and> r + 1 < length x \<and> x ! (l - 1) < x ! l
           \<and> (\<forall>k. l \<le> k \<and> k \<le> r \<longrightarrow> x ! k = x ! l) \<and> x ! (r + 1) < x ! l
           \<and> m = (l + r) div 2)"
  have weaken: "\<exists>l r. Q i l r" if "\<exists>l r. Q s' l r" "i \<le> s'" for s'
  proof -
    from that(1) obtain l r where q: "Q s' l r" by (elim exE)
    with that(2) have "i \<le> l" unfolding Q_def by linarith
    with q have "Q i l r" unfolding Q_def by blast
    then show ?thesis by (intro exI)
  qed
  have "\<exists>l r. Q i l r"
  proof (cases "i < length x - 1")
    case False
    then have "local_maxima_1d x i = []" by (subst local_maxima_1d.simps) simp
    with "1.prems" show ?thesis by simp
  next
    case inb: True
    show ?thesis
    proof (cases "x ! (i - 1) < x ! i")
      case False
      have eq: "local_maxima_1d x i = local_maxima_1d x (i + 1)"
        using inb False by (subst local_maxima_1d.simps) simp
      have "m \<in> set (local_maxima_1d x (i + 1))" using "1.prems"(1) unfolding eq .
      from "1.IH"(3)[OF inb False this] have "\<exists>l r. Q (i + 1) l r"
        unfolding Q_def by simp
      then show ?thesis by (rule weaken) simp
    next
      case up: True
      have "i + 1 \<le> length x - 1" using inb by simp
      moreover have "\<forall>k. i \<le> k \<and> k < i + 1 \<longrightarrow> x ! k = x ! i"
        by (auto simp: less_Suc_eq_le)
      ultimately have la: "?a \<le> length x - 1" "\<forall>k. i \<le> k \<and> k < ?a \<longrightarrow> x ! k = x ! i"
        using look_ahead_spec[of "i + 1" x i] by blast+
      have ge: "i + 1 \<le> ?a" by (rule look_ahead_ge)
      show ?thesis
      proof (cases "x ! ?a < x ! i")
        case False
        have eq: "local_maxima_1d x i = local_maxima_1d x (i + 1)"
          using inb up False by (subst local_maxima_1d.simps) (simp add: Let_def)
        have "m \<in> set (local_maxima_1d x (i + 1))" using "1.prems"(1) unfolding eq .
        from "1.IH"(2)[OF inb up refl False this] have "\<exists>l r. Q (i + 1) l r"
          unfolding Q_def by simp
        then show ?thesis by (rule weaken) simp
      next
        case down: True
        have eq: "local_maxima_1d x i = ((i + (?a - 1)) div 2) # local_maxima_1d x (?a + 1)"
          using inb up down by (subst local_maxima_1d.simps) (simp add: Let_def)
        from "1.prems"(1) have "m = (i + (?a - 1)) div 2 \<or> m \<in> set (local_maxima_1d x (?a + 1))"
          unfolding eq by simp
        then show ?thesis
        proof
          assume m: "m = (i + (?a - 1)) div 2"
          have "\<forall>k. i \<le> k \<and> k \<le> ?a - 1 \<longrightarrow> x ! k = x ! i"
          proof (intro allI impI)
            fix k assume "i \<le> k \<and> k \<le> ?a - 1"
            with ge have "i \<le> k \<and> k < ?a" by linarith
            with la(2) show "x ! k = x ! i" by blast
          qed
          moreover have "?a - 1 + 1 < length x" using la(1) inb ge by linarith
          moreover have "x ! (?a - 1 + 1) < x ! i" using down ge by simp
          moreover have "i \<le> ?a - 1" using ge by linarith
          ultimately have "Q i i (?a - 1)" unfolding Q_def using up m by blast
          then show ?thesis by (intro exI)
        next
          assume "m \<in> set (local_maxima_1d x (?a + 1))"
          from "1.IH"(1)[OF inb up refl down this] have "\<exists>l r. Q (?a + 1) l r"
            unfolding Q_def by simp
          then show ?thesis by (rule weaken) (use ge in linarith)
        qed
      qed
    qed
  qed
  then show ?case unfolding Q_def .
qed

section \<open>Properties of the sampling loop\<close>

lemma sample_altitudes_returns:
  assumes "0 < delta"
  shows "\<exists>r. sample_altitudes p sc cur e delta A T = Some r"
proof (induction "nat (e - cur)" arbitrary: cur A T rule: less_induct)
  case less
  show ?case
  proof (cases "cur < e")
    case False
    then show ?thesis by (subst sample_altitudes.simps) simp
  next
    case True
    show ?thesis
    proof (cases "altitude_at p sc cur")
      case (Inl err)
      with True show ?thesis by (subst sample_altitudes.simps) simp
    next
      case (Inr a)
      show ?thesis
      proof (cases "datetime_add cur delta")
        case (Inl err)
        with True Inr show ?thesis by (subst sample_altitudes.simps) simp
      next
        case nxt: (Inr next_time)
        then have n: "next_time = cur + delta"
          by (simp add: datetime_add_def split: if_splits)
        with True assms have "nat (e - next_time) < nat (e - cur)" by simp
        from less[OF this] obtain r
          where "sample_altitudes p sc next_time e delta (A @ [a]) (T @ [cur]) = Some r"
          by blast
        with True Inr nxt show ?thesis by (subst sample_altitudes.simps) simp
      qed
    qed
  qed
qed

lemma sample_altitudes_shape:
  assumes "0 < delta"
    and "sample_altitudes p sc cur e delta A T = Some (Inr (A', T'))"
  shows "\<exists>n B. T' = T @ map (\<lambda>k. cur + int k * delta) [0..<n]
             \<and> A' = A @ B
             \<and> map (altitude_at p sc) (map (\<lambda>k. cur + int k * delta) [0..<n]) = map Inr B
             \<and> (\<forall>k<n. cur + int k * delta < e)
             \<and> e \<le> cur + int n * delta"
  using assms(2)
proof (induction "nat (e - cur)" arbitrary: cur A T rule: less_induct)
  case less
  show ?case
  proof (cases "cur < e")
    case False
    with less.prems have "A' = A" "T' = T"
      by (subst (asm) sample_altitudes.simps, simp)+
    with False show ?thesis by (intro exI[of _ 0] exI[of _ "[]"]) simp
  next
    case True
    from less.prems True obtain a next_time where
      a: "altitude_at p sc cur = Inr a" and nxt: "datetime_add cur delta = Inr next_time"
      and rec: "sample_altitudes p sc next_time e delta (A @ [a]) (T @ [cur]) = Some (Inr (A', T'))"
      by (subst (asm) sample_altitudes.simps) (auto split: sum.splits)
    from nxt have n: "next_time = cur + delta"
      by (simp add: datetime_add_def split: if_splits)
    with True assms(1) have "nat (e - next_time) < nat (e - cur)" by simp
    from less.hyps[OF this rec] obtain m B where
      T': "T' = (T @ [cur]) @ map (\<lambda>k. next_time + int k * delta) [0..<m]"
      and A': "A' = (A @ [a]) @ B"
      and alt: "map (altitude_at p sc) (map (\<lambda>k. next_time + int k * delta) [0..<m]) = map Inr B"
      and lt: "\<forall>k<m. next_time + int k * delta < e"
      and ge: "e \<le> next_time + int m * delta"
      by blast
    have shift: "map (\<lambda>k. cur + int k * delta) [0..<Suc m]
        = cur # map (\<lambda>k. next_time + int k * delta) [0..<m]"
      unfolding n by (simp add: upt_conv_Cons map_Suc_upt[symmetric] algebra_simps del: upt_Suc)
    show ?thesis
    proof (intro exI[of _ "Suc m"] exI[of _ "a # B"] conjI)
      show "T' = T @ map (\<lambda>k. cur + int k * delta) [0..<Suc m]"
        unfolding shift using T' by simp
      show "A' = A @ a # B" using A' by simp
      show "map (altitude_at p sc) (map (\<lambda>k. cur + int k * delta) [0..<Suc m]) = map Inr (a # B)"
        unfolding shift using alt a by simp
      show "\<forall>k<Suc m. cur + int k * delta < e"
      proof (intro allI impI)
        fix k assume "k < Suc m"
        show "cur + int k * delta < e"
        proof (cases k)
          case 0
          with True show ?thesis by simp
        next
          case (Suc j)
          with \<open>k < Suc m\<close> lt have "next_time + int j * delta < e" by simp
          with Suc n show ?thesis by (simp add: algebra_simps)
        qed
      qed
      show "e \<le> cur + int (Suc m) * delta"
        using ge n by (simp add: algebra_simps)
    qed
  qed
qed

lemma local_maxima_1d_ge:
  assumes "m \<in> set (local_maxima_1d x s)" and "1 \<le> s"
  shows "s \<le> m"
proof -
  from local_maxima_1d_spec[OF assms] obtain l r where "s \<le> l" "l \<le> r" "m = (l + r) div 2"
    by blast
  then show ?thesis by linarith
qed

lemma local_maxima_1d_sorted:
  assumes "1 \<le> s"
  shows "sorted_wrt (<) (local_maxima_1d x s)"
  using assms
proof (induction x s rule: local_maxima_1d.induct)
  case (1 x i)
  let ?a = "look_ahead x i (i + 1)"
  have ge: "i + 1 \<le> ?a" by (rule look_ahead_ge)
  show ?case
  proof (cases "i < length x - 1 \<and> x ! (i - 1) < x ! i \<and> x ! ?a < x ! i")
    case True
    then have eq: "local_maxima_1d x i = ((i + (?a - 1)) div 2) # local_maxima_1d x (?a + 1)"
      by (subst local_maxima_1d.simps) (simp add: Let_def)
    have "sorted_wrt (<) (local_maxima_1d x (?a + 1))"
      using "1.IH"(1)[OF _ _ refl] True by simp
    moreover have "(i + (?a - 1)) div 2 < m" if "m \<in> set (local_maxima_1d x (?a + 1))" for m
    proof -
      from local_maxima_1d_ge[OF that] have "?a + 1 \<le> m" by simp
      with ge show ?thesis by linarith
    qed
    ultimately show ?thesis unfolding eq by simp
  next
    case False
    then have eq: "local_maxima_1d x i = (if i < length x - 1 then local_maxima_1d x (i + 1) else [])"
      by (subst local_maxima_1d.simps) (auto simp: Let_def)
    show ?thesis
    proof (cases "i < length x - 1")
      case inb: True
      show ?thesis
      proof (cases "x ! (i - 1) < x ! i")
        case up: True
        with inb False have "\<not> x ! ?a < x ! i" by simp
        from "1.IH"(2)[OF inb up refl this] inb show ?thesis unfolding eq by simp
      next
        case nup: False
        from "1.IH"(3)[OF inb nup] inb show ?thesis unfolding eq by simp
      qed
    next
      case False
      then show ?thesis unfolding eq by simp
    qed
  qed
qed

lemma find_peaks_plateau:
  assumes "m \<in> set (find_peaks x)"
  shows "\<exists>l r. 0 < l \<and> l \<le> m \<and> m \<le> r \<and> r + 1 < length x \<and> m = (l + r) div 2
           \<and> (\<forall>k. l \<le> k \<and> k \<le> r \<longrightarrow> x ! k = x ! m)
           \<and> x ! (l - 1) < x ! m \<and> x ! (r + 1) < x ! m"
proof -
  from assms have "m \<in> set (local_maxima_1d x 1)" by (simp add: find_peaks_def)
  from local_maxima_1d_spec[OF this] obtain l r where
    a: "1 \<le> l" "l \<le> r" "r + 1 < length x" "m = (l + r) div 2"
    and lo: "x ! (l - 1) < x ! l" and hi: "x ! (r + 1) < x ! l"
    and flat: "\<forall>k. l \<le> k \<and> k \<le> r \<longrightarrow> x ! k = x ! l"
    by blast
  from a have lm: "l \<le> m" and mr: "m \<le> r" by linarith+
  with flat have xm: "x ! m = x ! l" by blast
  have "\<forall>k. l \<le> k \<and> k \<le> r \<longrightarrow> x ! k = x ! m"
    unfolding xm by (rule flat)
  moreover from lo hi have "x ! (l - 1) < x ! m" "x ! (r + 1) < x ! m" unfolding xm by blast+
  moreover from a have "0 < l" by linarith
  ultimately show ?thesis using lm mr a(3,4) by blast
qed

lemma find_peaks_neighbours:
  assumes "m \<in> set (find_peaks x)"
  shows "0 < m \<and> m + 1 < length x \<and> x ! (m - 1) \<le> x ! m \<and> x ! (m + 1) \<le> x ! m"
proof -
  from find_peaks_plateau[OF assms] obtain l r where
    a: "0 < l" "l \<le> m" "m \<le> r" "r + 1 < length x"
    and flat: "\<forall>k. l \<le> k \<and> k \<le> r \<longrightarrow> x ! k = x ! m"
    and lo: "x ! (l - 1) < x ! m" and hi: "x ! (r + 1) < x ! m"
    by blast
  have "x ! (m - 1) \<le> x ! m"
  proof (cases "m = l")
    case True
    with lo show ?thesis by simp
  next
    case False
    with a have "l \<le> m - 1 \<and> m - 1 \<le> r" by linarith
    with flat have "x ! (m - 1) = x ! m" by blast
    then show ?thesis by simp
  qed
  moreover have "x ! (m + 1) \<le> x ! m"
  proof (cases "m = r")
    case True
    with hi show ?thesis by simp
  next
    case False
    with a have "l \<le> m + 1 \<and> m + 1 \<le> r" by linarith
    with flat have "x ! (m + 1) = x ! m" by blast
    then show ?thesis by simp
  qed
  moreover from a have "0 < m" "m + 1 < length x" by linarith+
  ultimately show ?thesis by blast
qed

section \<open>Properties of the minimum search and of the reduction\<close>

lemma argmin_scan_spec:
  assumes "ws = pre @ vs" and "length pre = i" and "min_ind < i" and "mp = ws ! min_ind"
    and "\<forall>j<i. mp \<le> ws ! j" and "\<forall>j<min_ind. mp < ws ! j"
  shows "argmin_scan vs i mp min_ind < length ws
       \<and> (\<forall>j<length ws. ws ! argmin_scan vs i mp min_ind \<le> ws ! j)
       \<and> (\<forall>j<argmin_scan vs i mp min_ind. ws ! argmin_scan vs i mp min_ind < ws ! j)"
  using assms
proof (induction vs arbitrary: pre i mp min_ind)
  case Nil
  then show ?case by simp
next
  case (Cons v vs)
  have wi: "ws ! i = v" using Cons.prems(1,2) by (simp add: nth_append)
  have ws': "ws = (pre @ [v]) @ vs" "length (pre @ [v]) = i + 1" using Cons.prems(1,2) by simp_all
  show ?case
  proof (cases "v < mp")
    case True
    have "\<forall>j<i + 1. v \<le> ws ! j"
    proof (intro allI impI)
      fix j assume "j < i + 1"
      then consider "j < i" | "j = i" by linarith
      then show "v \<le> ws ! j"
      proof cases
        case 1
        with Cons.prems(5) have "mp \<le> ws ! j" by blast
        with True show ?thesis by simp
      next
        case 2
        with wi show ?thesis by simp
      qed
    qed
    moreover have "\<forall>j<i. v < ws ! j"
    proof (intro allI impI)
      fix j assume "j < i"
      with Cons.prems(5) have "mp \<le> ws ! j" by blast
      with True show "v < ws ! j" by simp
    qed
    ultimately show ?thesis
      using Cons.IH[OF ws', of i v] wi True by simp
  next
    case False
    have "\<forall>j<i + 1. mp \<le> ws ! j"
    proof (intro allI impI)
      fix j assume "j < i + 1"
      then consider "j < i" | "j = i" by linarith
      then show "mp \<le> ws ! j"
      proof cases
        case 1
        with Cons.prems(5) show ?thesis by blast
      next
        case 2
        with wi False show ?thesis by simp
      qed
    qed
    then show ?thesis
      using Cons.IH[OF ws', of min_ind mp] Cons.prems(3,4,6) False by simp
  qed
qed

lemma argmin_spec:
  assumes "argmin vs = Inr k"
  shows "k < length vs \<and> (\<forall>j<length vs. vs ! k \<le> vs ! j) \<and> (\<forall>j<k. vs ! k < vs ! j)"
proof (cases vs)
  case Nil
  with assms show ?thesis by (simp add: argmin_def)
next
  case (Cons v rest)
  with assms have k: "k = argmin_scan rest 1 v 0" by (simp add: argmin_def)
  have a: "vs = [v] @ rest" "length [v] = 1" "(0::nat) < 1" "v = vs ! 0"
    "\<forall>j<1::nat. v \<le> vs ! j" "\<forall>j<0::nat. v < vs ! j"
    using Cons by simp_all
  show ?thesis unfolding k by (rule argmin_scan_spec[OF a])
qed

lemma argmin_empty: "argmin [] = Inl ValueError"
  by (simp add: argmin_def)

lemma argmin_nonempty: "vs \<noteq> [] \<Longrightarrow> \<exists>k. argmin vs = Inr k"
  by (cases vs) (simp_all add: argmin_def)

lemma reduce_apoapses_done:
  "\<not> int (length A) > n \<Longrightarrow> reduce_apoapses s e n A T = Inr (A, T)"
  by (subst reduce_apoapses.simps) simp

lemma reduce_apoapses_step:
  assumes "int (length A) > n" and "T \<noteq> []" and "A \<noteq> []"
  shows "reduce_apoapses s e n A T =
    (let midpoint = s + divide_and_round (e - s) 2;
         first_time_difference = \<bar>hd T - midpoint\<bar>;
         last_time_difference = \<bar>last T - midpoint\<bar>
     in if first_time_difference > last_time_difference
        then reduce_apoapses s e n (tl A) (tl T)
        else if last_time_difference > first_time_difference
        then reduce_apoapses s e n (butlast A) (butlast T)
        else Inl ValueError)"
  using assms by (subst reduce_apoapses.simps) (simp add: Let_def)

lemma zip_tl_subset: "set (zip (tl A) (tl T)) \<subseteq> set (zip A T)"
  by (cases A; cases T) auto

lemma zip_butlast_subset: "set (zip (butlast A) (butlast T)) \<subseteq> set (zip A T)"
proof
  fix q assume "q \<in> set (zip (butlast A) (butlast T))"
  then obtain i where i: "i < length (butlast A)" "i < length (butlast T)"
    and q: "q = (butlast A ! i, butlast T ! i)"
    by (auto simp: set_zip)
  then have "q = (A ! i, T ! i)" "i < length A" "i < length T"
    by (simp_all add: nth_butlast)
  then show "q \<in> set (zip A T)" by (auto simp: set_zip)
qed

lemma reduce_apoapses_result:
  assumes "length T = length A" and "0 \<le> n"
  shows "(\<forall>A' T'. reduce_apoapses s e n A T = Inr (A', T') \<longrightarrow>
            length A' = length T' \<and> (int (length A) > n \<longrightarrow> int (length A') = n)
            \<and> set (zip A' T') \<subseteq> set (zip A T))
       \<and> (\<forall>err. reduce_apoapses s e n A T = Inl err \<longrightarrow> err = ValueError)"
  using assms(1)
proof (induction "length A" arbitrary: A T rule: less_induct)
  case less
  show ?case
  proof (cases "int (length A) > n")
    case False
    then show ?thesis using less.prems by (simp add: reduce_apoapses_done)
  next
    case True
    with assms(2) less.prems have ne: "T \<noteq> []" "A \<noteq> []" by auto
    have step: ?thesis
      if eq: "reduce_apoapses s e n A T = reduce_apoapses s e n A2 T2"
        and len: "length A2 + 1 = length A" "length T2 = length A2"
        and sub: "set (zip A2 T2) \<subseteq> set (zip A T)" for A2 T2
    proof -
      from len have "length A2 < length A" by simp
      from less.hyps[OF this len(2)] have
        ih1: "\<And>A' T'. reduce_apoapses s e n A2 T2 = Inr (A', T') \<Longrightarrow>
            length A' = length T' \<and> (int (length A2) > n \<longrightarrow> int (length A') = n)
            \<and> set (zip A' T') \<subseteq> set (zip A2 T2)"
        and ih2: "\<And>err. reduce_apoapses s e n A2 T2 = Inl err \<Longrightarrow> err = ValueError"
        by blast+
      show ?thesis unfolding eq
      proof (intro conjI allI impI)
        fix A' T' assume r: "reduce_apoapses s e n A2 T2 = Inr (A', T')"
        from ih1[OF r] show "length A' = length T'" by blast
        from ih1[OF r] sub show "set (zip A' T') \<subseteq> set (zip A T)" by blast
        show "int (length A') = n"
        proof (cases "int (length A2) > n")
          case True
          with ih1[OF r] show ?thesis by blast
        next
          case False
          with r have "A' = A2" by (simp add: reduce_apoapses_done)
          moreover from False len(1) \<open>int (length A) > n\<close> have "int (length A2) = n"
            by linarith
          ultimately show ?thesis by simp
        qed
      next
        fix err assume "reduce_apoapses s e n A2 T2 = Inl err"
        then show "err = ValueError" by (rule ih2)
      qed
    qed
    let ?mid = "s + divide_and_round (e - s) 2"
    let ?fd = "\<bar>hd T - ?mid\<bar>"
    let ?ld = "\<bar>last T - ?mid\<bar>"
    consider "?fd > ?ld" | "?ld > ?fd" | "?fd = ?ld" by linarith
    then show ?thesis
    proof cases
      case 1
      then have eq: "reduce_apoapses s e n A T = reduce_apoapses s e n (tl A) (tl T)"
        by (simp add: reduce_apoapses_step[OF True ne] Let_def)
      have len: "length (tl A) + 1 = length A" "length (tl T) = length (tl A)"
        using ne less.prems by simp_all
      from eq len zip_tl_subset show ?thesis by (rule step)
    next
      case 2
      then have eq: "reduce_apoapses s e n A T = reduce_apoapses s e n (butlast A) (butlast T)"
        by (simp add: reduce_apoapses_step[OF True ne] Let_def)
      have len: "length (butlast A) + 1 = length A" "length (butlast T) = length (butlast A)"
        using ne less.prems by simp_all
      from eq len zip_butlast_subset show ?thesis by (rule step)
    next
      case 3
      then have "reduce_apoapses s e n A T = Inl ValueError"
        by (simp add: reduce_apoapses_step[OF True ne] Let_def)
      then show ?thesis by simp
    qed
  qed
qed

lemma datetime_add_Inr: "datetime_add t d = Inr u \<Longrightarrow> u = t + d"
  by (simp add: datetime_add_def split: if_splits)

lemma Get_Nearest_Apoapsis_InrD:
  assumes "Get_Nearest_Apoapsis p time delta limit sc = Some (Inr (t, a))"
  shows "\<exists>alts ts k. datetime_add time (- limit) = Inr (time - limit)
          \<and> datetime_add time limit = Inr (time + limit)
          \<and> sample_altitudes p sc (time - limit) (time + limit) delta [] [] = Some (Inr (alts, ts))
          \<and> argmin (map (\<lambda>i. \<bar>time - ts ! i\<bar>) (find_peaks alts)) = Inr k
          \<and> t = ts ! (find_peaks alts ! k) \<and> a = alts ! (find_peaks alts ! k)"
proof -
  from assms obtain s1 s2 where s: "datetime_add time (- limit) = Inr s1" "datetime_add time limit = Inr s2"
    by (auto simp: Get_Nearest_Apoapsis_def split: sum.splits)
  from s have s12: "s1 = time - limit" "s2 = time + limit" by (auto dest: datetime_add_Inr)
  from assms s obtain alts ts where
    sa: "sample_altitudes p sc s1 s2 delta [] [] = Some (Inr (alts, ts))"
    by (auto simp: Get_Nearest_Apoapsis_def split: sum.splits option.splits)
  from assms s sa obtain k where
    "argmin (map (\<lambda>i. \<bar>time - ts ! i\<bar>) (find_peaks alts)) = Inr k"
    "t = ts ! (find_peaks alts ! k)" "a = alts ! (find_peaks alts ! k)"
    by (auto simp: Get_Nearest_Apoapsis_def Let_def split: sum.splits)
  with s sa show ?thesis unfolding s12 by blast
qed

lemma Get_Nearest_Apoapsis_eq:
  assumes "datetime_add time (- limit) = Inr (time - limit)"
    and "datetime_add time limit = Inr (time + limit)"
    and "sample_altitudes p sc (time - limit) (time + limit) delta [] [] = Some (Inr (alts, ts))"
  shows "Get_Nearest_Apoapsis p time delta limit sc =
     (case argmin (map (\<lambda>i. \<bar>time - ts ! i\<bar>) (find_peaks alts)) of
        Inl e \<Rightarrow> Some (Inl e)
      | Inr k \<Rightarrow> Some (Inr (ts ! (find_peaks alts ! k), alts ! (find_peaks alts ! k))))"
  using assms by (simp add: Get_Nearest_Apoapsis_def Let_def split: sum.splits)

lemma Get_Nearest_Apoapsis_returns:
  assumes "0 < delta"
  shows "\<exists>r. Get_Nearest_Apoapsis p time delta limit sc = Some r"
proof (cases "datetime_add time (- limit)")
  case (Inl e)
  then show ?thesis by (simp add: Get_Nearest_Apoapsis_def)
next
  case s1: (Inr s1)
  show ?thesis
  proof (cases "datetime_add time limit")
    case (Inl e)
    with s1 show ?thesis by (simp add: Get_Nearest_Apoapsis_def)
  next
    case s2: (Inr s2)
    from sample_altitudes_returns[OF assms, of p sc s1 s2 "[]" "[]"] obtain r
      where "sample_altitudes p sc s1 s2 delta [] [] = Some r" by blast
    with s1 s2 show ?thesis
      by (cases r) (auto simp: Get_Nearest_Apoapsis_def Let_def split: sum.splits)
  qed
qed

lemma Get_All_Apoapsis_In_Range_eq:
  assumes "sample_altitudes p sc start_time end_time delta [] [] = Some (Inr (alts, ts))"
  shows "Get_All_Apoapsis_In_Range p start_time end_time delta n sc =
     (if n > 0
      then Some (reduce_apoapses start_time end_time n
                   (map (\<lambda>i. alts ! i) (find_peaks alts)) (map (\<lambda>i. ts ! i) (find_peaks alts)))
      else Some (Inr (map (\<lambda>i. alts ! i) (find_peaks alts), map (\<lambda>i. ts ! i) (find_peaks alts))))"
  using assms by (simp add: Get_All_Apoapsis_In_Range_def Let_def)

lemma Get_All_Apoapsis_In_Range_InrD:
  assumes "Get_All_Apoapsis_In_Range p start_time end_time delta n sc = Some (Inr r)"
  shows "\<exists>alts ts. sample_altitudes p sc start_time end_time delta [] [] = Some (Inr (alts, ts))"
  using assms by (auto simp: Get_All_Apoapsis_In_Range_def split: option.splits sum.splits)

section \<open>Properties of the apoapsis finder\<close>

lemma altitude_at_synthetic:
  "altitude_at (synthetic_provider f) sc t = Inr \<bar>f (real_of_int (t div 1000000))\<bar>"
  by (simp add: altitude_at_def synthetic_provider_def strftime_def)

text \<open>
  C6, as amended. Every index that the peak detector reports is an interior sample, never
  the first or the last of the series; its altitude is not less than that of either
  immediate neighbour; and it is the middle sample (rounded down) of a run of equal
  altitudes that is strictly higher than the sample just before the run and the sample
  just after it. Every apoapsis that \<open>Get_All_Apoapsis_In_Range\<close> or
  \<open>Get_Nearest_Apoapsis\<close> returns is the sample at such an index.
\<close>

theorem find_peaks_local_maximum:
  "(\<forall>m\<in>set (find_peaks altitudes).
       0 < m \<and> m + 1 < length altitudes
     \<and> altitudes ! (m - 1) \<le> altitudes ! m \<and> altitudes ! (m + 1) \<le> altitudes ! m
     \<and> (\<exists>l r. 0 < l \<and> l \<le> m \<and> m \<le> r \<and> r + 1 < length altitudes \<and> m = (l + r) div 2
           \<and> (\<forall>k. l \<le> k \<and> k \<le> r \<longrightarrow> altitudes ! k = altitudes ! m)
           \<and> altitudes ! (l - 1) < altitudes ! m \<and> altitudes ! (r + 1) < altitudes ! m))
   \<and> (\<forall>A T. Get_All_Apoapsis_In_Range p start_time end_time time_delta n spacecraft = Some (Inr (A, T))
        \<longrightarrow> (\<exists>alts ts.
               sample_altitudes p spacecraft start_time end_time time_delta [] [] = Some (Inr (alts, ts))
             \<and> length A = length T
             \<and> (\<forall>k<length A. \<exists>m\<in>set (find_peaks alts). A ! k = alts ! m \<and> T ! k = ts ! m)))
   \<and> (\<forall>t a. Get_Nearest_Apoapsis p time time_delta time_limit spacecraft = Some (Inr (t, a))
        \<longrightarrow> (\<exists>alts ts.
               sample_altitudes p spacecraft (time - time_limit) (time + time_limit) time_delta [] []
                 = Some (Inr (alts, ts))
             \<and> (\<exists>m\<in>set (find_peaks alts). a = alts ! m \<and> t = ts ! m)))"
proof (intro conjI ballI allI impI)
  fix m assume m: "m \<in> set (find_peaks altitudes)"
  from find_peaks_neighbours[OF m]
  show "0 < m" "m + 1 < length altitudes" "altitudes ! (m - 1) \<le> altitudes ! m"
    "altitudes ! (m + 1) \<le> altitudes ! m"
    by blast+
  from find_peaks_plateau[OF m]
  show "\<exists>l r. 0 < l \<and> l \<le> m \<and> m \<le> r \<and> r + 1 < length altitudes \<and> m = (l + r) div 2
           \<and> (\<forall>k. l \<le> k \<and> k \<le> r \<longrightarrow> altitudes ! k = altitudes ! m)
           \<and> altitudes ! (l - 1) < altitudes ! m \<and> altitudes ! (r + 1) < altitudes ! m" .
next
  fix A T
  assume r: "Get_All_Apoapsis_In_Range p start_time end_time time_delta n spacecraft = Some (Inr (A, T))"
  from Get_All_Apoapsis_In_Range_InrD[OF r] obtain alts ts where
    sa: "sample_altitudes p spacecraft start_time end_time time_delta [] [] = Some (Inr (alts, ts))"
    by blast
  let ?pk = "find_peaks alts"
  let ?A0 = "map (\<lambda>i. alts ! i) ?pk"
  let ?T0 = "map (\<lambda>i. ts ! i) ?pk"
  have sub: "length A = length T \<and> set (zip A T) \<subseteq> set (zip ?A0 ?T0)"
  proof (cases "n > 0")
    case True
    with r have red: "reduce_apoapses start_time end_time n ?A0 ?T0 = Inr (A, T)"
      by (simp add: Get_All_Apoapsis_In_Range_eq[OF sa])
    have "length ?T0 = length ?A0" by simp
    from reduce_apoapses_result[OF this, of n start_time end_time] True red
    show ?thesis by simp
  next
    case False
    with r have "A = ?A0" "T = ?T0" by (simp_all add: Get_All_Apoapsis_In_Range_eq[OF sa])
    then show ?thesis by simp
  qed
  have "\<exists>m\<in>set ?pk. A ! k = alts ! m \<and> T ! k = ts ! m" if k: "k < length A" for k
  proof -
    from k sub have "(A ! k, T ! k) \<in> set (zip A T)" by (auto simp: set_zip)
    with sub have "(A ! k, T ! k) \<in> set (zip ?A0 ?T0)" by blast
    then obtain i where "i < length ?pk" "A ! k = alts ! (?pk ! i)" "T ! k = ts ! (?pk ! i)"
      by (auto simp: set_zip)
    then show ?thesis by (intro bexI[of _ "?pk ! i"]) simp_all
  qed
  with sa sub
  show "\<exists>alts ts.
               sample_altitudes p spacecraft start_time end_time time_delta [] [] = Some (Inr (alts, ts))
             \<and> length A = length T
             \<and> (\<forall>k<length A. \<exists>m\<in>set (find_peaks alts). A ! k = alts ! m \<and> T ! k = ts ! m)"
    by blast
next
  fix t a
  assume r: "Get_Nearest_Apoapsis p time time_delta time_limit spacecraft = Some (Inr (t, a))"
  from Get_Nearest_Apoapsis_InrD[OF r] obtain alts ts k where
    sa: "sample_altitudes p spacecraft (time - time_limit) (time + time_limit) time_delta [] []
           = Some (Inr (alts, ts))"
    and k: "argmin (map (\<lambda>i. \<bar>time - ts ! i\<bar>) (find_peaks alts)) = Inr k"
    and ta: "t = ts ! (find_peaks alts ! k)" "a = alts ! (find_peaks alts ! k)"
    by blast
  from argmin_spec[OF k] have "k < length (find_peaks alts)" by simp
  then have "find_peaks alts ! k \<in> set (find_peaks alts)" by simp
  with sa ta
  show "\<exists>alts ts.
               sample_altitudes p spacecraft (time - time_limit) (time + time_limit) time_delta [] []
                 = Some (Inr (alts, ts))
             \<and> (\<exists>m\<in>set (find_peaks alts). a = alts ! m \<and> t = ts ! m)"
    by blast
qed

lemma plateau_samples:
  "sample_altitudes (synthetic_provider (\<lambda>t. if t = 60 \<or> t = 120 then 2 else 1)) ''MESSENGER''
      0 240000000 60000000 [] []
    = Some (Inr ([1, 2, 2, 1], [0, 60000000, 120000000, 180000000]))"
  by (simp add: sample_altitudes.simps altitude_at_synthetic datetime_add_def datetime_max_def)

lemma plateau_peaks: "find_peaks [1, 2, 2, 1] = [1]"
  by (simp add: find_peaks_def local_maxima_1d.simps look_ahead.simps)

theorem find_peaks_local_maximum_witness:
  "Get_All_Apoapsis_In_Range (synthetic_provider (\<lambda>t. if t = 60 \<or> t = 120 then 2 else 1))
      0 240000000 60000000 0 ''MESSENGER'' = Some (Inr ([2], [60000000]))
   \<and> 1 \<in> set (find_peaks [1, 2, 2, 1])
   \<and> [1, 2, 2, 1 :: real] ! (1 - 1) \<le> [1, 2, 2, 1] ! 1
   \<and> [1, 2, 2, 1 :: real] ! (1 + 1) \<le> [1, 2, 2, 1] ! 1
   \<and> (\<exists>l r. 0 < l \<and> l \<le> 1 \<and> 1 \<le> r \<and> r + 1 < length [1, 2, 2, 1 :: real] \<and> 1 = (l + r) div 2
         \<and> [1, 2, 2, 1 :: real] ! (l - 1) < [1, 2, 2, 1] ! 1
         \<and> [1, 2, 2, 1 :: real] ! (r + 1) < [1, 2, 2, 1] ! 1)"
proof -
  let ?p = "synthetic_provider (\<lambda>t. if t = 60 \<or> t = 120 then 2 else 1)"
  have g: "Get_All_Apoapsis_In_Range ?p 0 240000000 60000000 0 ''MESSENGER'' = Some (Inr ([2], [60000000]))"
    by (simp add: Get_All_Apoapsis_In_Range_eq[OF plateau_samples] plateau_peaks)
  have m: "1 \<in> set (find_peaks [1, 2, 2, 1])" by (simp add: plateau_peaks)
  from find_peaks_local_maximum[of "[1, 2, 2, 1]" ?p 0 240000000 60000000 0 "''MESSENGER''" 0 0] m
  have "[1, 2, 2, 1 :: real] ! (1 - 1) \<le> [1, 2, 2, 1] ! 1 \<and> [1, 2, 2, 1 :: real] ! (1 + 1) \<le> [1, 2, 2, 1] ! 1
     \<and> (\<exists>l r. 0 < l \<and> l \<le> 1 \<and> 1 \<le> r \<and> r + 1 < length [1, 2, 2, 1 :: real] \<and> 1 = (l + r) div 2
         \<and> [1, 2, 2, 1 :: real] ! (l - 1) < [1, 2, 2, 1] ! 1
         \<and> [1, 2, 2, 1 :: real] ! (r + 1) < [1, 2, 2, 1] ! 1)"
    by blast
  with g m show ?thesis by blast
qed

text \<open>
  C6, as stated, fails on a flat-topped maximum: for the sampled altitudes \<open>1, 2, 2, 1\<close> the
  apoapsis reported is the sample of altitude 2 at index 1, whose later neighbour has the
  same altitude.
\<close>

theorem apoapsis_not_strictly_above_neighbour:
  "sample_altitudes (synthetic_provider (\<lambda>t. if t = 60 \<or> t = 120 then 2 else 1)) ''MESSENGER''
      0 240000000 60000000 [] []
     = Some (Inr ([1, 2, 2, 1], [0, 60000000, 120000000, 180000000]))
   \<and> Get_All_Apoapsis_In_Range (synthetic_provider (\<lambda>t. if t = 60 \<or> t = 120 then 2 else 1))
      0 240000000 60000000 0 ''MESSENGER'' = Some (Inr ([2], [60000000]))
   \<and> [0, 60000000, 120000000, 180000000 :: int] ! 1 = 60000000
   \<and> [1, 2, 2, 1 :: real] ! 1 = 2
   \<and> \<not> ([1, 2, 2, 1 :: real] ! 2 < [1, 2, 2, 1] ! 1)"
  by (simp add: Get_All_Apoapsis_In_Range_eq[OF plateau_samples] plateau_peaks plateau_samples)

lemma divide_and_round_2:
  "(even d \<longrightarrow> 2 * divide_and_round d 2 = d)
   \<and> (odd d \<longrightarrow> even (divide_and_round d 2) \<and> \<bar>2 * divide_and_round d 2 - d\<bar> = 1)"
proof (cases "even d")
  case True
  then have "d mod 2 = 0" by presburger
  with True show ?thesis by (simp add: divide_and_round_def Let_def)
next
  case False
  then have m: "d mod 2 = 1" by presburger
  define q where "q = d div 2"
  have d: "d = 2 * q + 1" unfolding q_def using m by presburger
  show ?thesis
  proof (cases "even q")
    case True
    then have "q mod 2 \<noteq> 1" by presburger
    with m have "divide_and_round d 2 = q"
      unfolding q_def by (simp add: divide_and_round_def Let_def)
    moreover have "\<bar>2 * q - (2 * q + 1)\<bar> = 1" by simp
    ultimately show ?thesis using True False unfolding d by simp
  next
    case odd: False
    then have "q mod 2 = 1" by presburger
    with m have "divide_and_round d 2 = q + 1"
      unfolding q_def by (simp add: divide_and_round_def Let_def)
    moreover have "\<bar>2 * (q + 1) - (2 * q + 1)\<bar> = 1" by simp
    ultimately show ?thesis using odd False unfolding d by simp
  qed
qed

text \<open>
  C3, as amended. The midpoint of the reduction is \<open>start + (end - start) / 2\<close> as
  \<^verbatim>\<open>timedelta\<close> division gives it, rounded to a whole microsecond, halves to even; it is the
  exact midpoint when the interval has an even number of microseconds, and half a
  microsecond off, on the even side, otherwise. With a positive target count and more
  peaks than the target, one round of the reduction removes the first peak when its time is
  strictly farther from that midpoint than the last peak's, removes the last peak when
  that one is strictly farther, and raises ValueError when both are equally far from it.
  With no more peaks than the target the arrays are returned as they are, so with one peak
  too many the round's removal is the result; the reduction ends with exactly the target
  count or with that ValueError. For peaks at minutes 10, 70 and 130 of a 140-minute
  interval and a target of 2 it raises ValueError; for peaks at minutes 10, 70 and 100 it
  removes the first, and for peaks at minutes 40, 70 and 130 the last.
\<close>

theorem reduce_apoapses_removes_farther_end:
  "(0 < n \<and> n < int (length A) \<and> length T = length A \<longrightarrow>
      (let midpoint = start_time + divide_and_round (end_time - start_time) 2;
           first_time_difference = \<bar>hd T - midpoint\<bar>;
           last_time_difference = \<bar>last T - midpoint\<bar>
       in (first_time_difference > last_time_difference \<longrightarrow>
             reduce_apoapses start_time end_time n A T
               = reduce_apoapses start_time end_time n (tl A) (tl T))
        \<and> (last_time_difference > first_time_difference \<longrightarrow>
             reduce_apoapses start_time end_time n A T
               = reduce_apoapses start_time end_time n (butlast A) (butlast T))
        \<and> (first_time_difference = last_time_difference \<longrightarrow>
             reduce_apoapses start_time end_time n A T = Inl ValueError))
    \<and> (\<forall>A' T'. reduce_apoapses start_time end_time n A T = Inr (A', T')
          \<longrightarrow> int (length A') = n \<and> length T' = length A')
    \<and> (\<forall>err. reduce_apoapses start_time end_time n A T = Inl err \<longrightarrow> err = ValueError))
   \<and> (int (length A) \<le> n \<longrightarrow> reduce_apoapses start_time end_time n A T = Inr (A, T))
   \<and> (0 < n \<and> int (length A) = n + 1 \<and> length T = length A \<longrightarrow>
      (let midpoint = start_time + divide_and_round (end_time - start_time) 2;
           first_time_difference = \<bar>hd T - midpoint\<bar>;
           last_time_difference = \<bar>last T - midpoint\<bar>
       in (first_time_difference > last_time_difference \<longrightarrow>
             reduce_apoapses start_time end_time n A T = Inr (tl A, tl T))
        \<and> (last_time_difference > first_time_difference \<longrightarrow>
             reduce_apoapses start_time end_time n A T = Inr (butlast A, butlast T))))
   \<and> (even (end_time - start_time) \<longrightarrow>
        2 * (start_time + divide_and_round (end_time - start_time) 2) = start_time + end_time)
   \<and> (odd (end_time - start_time) \<longrightarrow>
        even (divide_and_round (end_time - start_time) 2)
      \<and> \<bar>2 * (start_time + divide_and_round (end_time - start_time) 2) - (start_time + end_time)\<bar> = 1)
   \<and> (\<forall>alts ts. sample_altitudes p spacecraft start_time end_time time_delta [] []
                    = Some (Inr (alts, ts))
         \<longrightarrow> Get_All_Apoapsis_In_Range p start_time end_time time_delta n spacecraft
               = (if 0 < n
                  then Some (reduce_apoapses start_time end_time n
                               (map (\<lambda>i. alts ! i) (find_peaks alts))
                               (map (\<lambda>i. ts ! i) (find_peaks alts)))
                  else Some (Inr (map (\<lambda>i. alts ! i) (find_peaks alts),
                                  map (\<lambda>i. ts ! i) (find_peaks alts)))))
   \<and> reduce_apoapses 0 (140 * 60000000) 2 [a1, a2, a3]
        [10 * 60000000, 70 * 60000000, 130 * 60000000] = Inl ValueError
   \<and> reduce_apoapses 0 (140 * 60000000) 2 [a1, a2, a3]
        [10 * 60000000, 70 * 60000000, 100 * 60000000]
        = Inr ([a2, a3], [70 * 60000000, 100 * 60000000])
   \<and> reduce_apoapses 0 (140 * 60000000) 2 [a1, a2, a3]
        [40 * 60000000, 70 * 60000000, 130 * 60000000]
        = Inr ([a1, a2], [40 * 60000000, 70 * 60000000])"
proof (intro conjI impI)
  assume h: "0 < n \<and> n < int (length A) \<and> length T = length A"
  then have gt: "n < int (length A)" and len: "length T = length A" and n0: "0 \<le> n" by simp_all
  then have ne: "T \<noteq> []" "A \<noteq> []" by auto
  show "let midpoint = start_time + divide_and_round (end_time - start_time) 2;
           first_time_difference = \<bar>hd T - midpoint\<bar>;
           last_time_difference = \<bar>last T - midpoint\<bar>
       in (first_time_difference > last_time_difference \<longrightarrow>
             reduce_apoapses start_time end_time n A T
               = reduce_apoapses start_time end_time n (tl A) (tl T))
        \<and> (last_time_difference > first_time_difference \<longrightarrow>
             reduce_apoapses start_time end_time n A T
               = reduce_apoapses start_time end_time n (butlast A) (butlast T))
        \<and> (first_time_difference = last_time_difference \<longrightarrow>
             reduce_apoapses start_time end_time n A T = Inl ValueError)"
    by (simp add: reduce_apoapses_step[OF gt ne] Let_def)
  show "\<forall>A' T'. reduce_apoapses start_time end_time n A T = Inr (A', T')
          \<longrightarrow> int (length A') = n \<and> length T' = length A'"
  proof (intro allI impI)
    fix A' T' assume "reduce_apoapses start_time end_time n A T = Inr (A', T')"
    with reduce_apoapses_result[OF len n0, of start_time end_time] gt
    have "length A' = length T'" "int (length A') = n" by blast+
    then show "int (length A') = n \<and> length T' = length A'" by simp
  qed
  from reduce_apoapses_result[OF len n0, of start_time end_time]
  show "\<forall>err. reduce_apoapses start_time end_time n A T = Inl err \<longrightarrow> err = ValueError"
    by blast
next
  assume "int (length A) \<le> n"
  then show "reduce_apoapses start_time end_time n A T = Inr (A, T)"
    by (simp add: reduce_apoapses_done)
next
  assume h: "0 < n \<and> int (length A) = n + 1 \<and> length T = length A"
  then have gt: "n < int (length A)" and len: "length T = length A" by simp_all
  with h have ne: "T \<noteq> []" "A \<noteq> []" by auto
  have tl: "reduce_apoapses start_time end_time n (tl A) (tl T) = Inr (tl A, tl T)"
    using h ne by (intro reduce_apoapses_done) simp
  have bl: "reduce_apoapses start_time end_time n (butlast A) (butlast T)
              = Inr (butlast A, butlast T)"
    using h ne by (intro reduce_apoapses_done) simp
  show "let midpoint = start_time + divide_and_round (end_time - start_time) 2;
           first_time_difference = \<bar>hd T - midpoint\<bar>;
           last_time_difference = \<bar>last T - midpoint\<bar>
       in (first_time_difference > last_time_difference \<longrightarrow>
             reduce_apoapses start_time end_time n A T = Inr (tl A, tl T))
        \<and> (last_time_difference > first_time_difference \<longrightarrow>
             reduce_apoapses start_time end_time n A T = Inr (butlast A, butlast T))"
    by (simp add: reduce_apoapses_step[OF gt ne] Let_def tl bl)
next
  assume "even (end_time - start_time)"
  with divide_and_round_2[of "end_time - start_time"]
  show "2 * (start_time + divide_and_round (end_time - start_time) 2) = start_time + end_time"
    by simp
next
  assume o: "odd (end_time - start_time)"
  with divide_and_round_2[of "end_time - start_time"]
  show "even (divide_and_round (end_time - start_time) 2)" by blast
  from o divide_and_round_2[of "end_time - start_time"]
  have "\<bar>2 * divide_and_round (end_time - start_time) 2 - (end_time - start_time)\<bar> = 1" by blast
  then show "\<bar>2 * (start_time + divide_and_round (end_time - start_time) 2)
               - (start_time + end_time)\<bar> = 1"
    by (simp add: algebra_simps)
next
  show "\<forall>alts ts. sample_altitudes p spacecraft start_time end_time time_delta [] []
                    = Some (Inr (alts, ts))
         \<longrightarrow> Get_All_Apoapsis_In_Range p start_time end_time time_delta n spacecraft
               = (if 0 < n
                  then Some (reduce_apoapses start_time end_time n
                               (map (\<lambda>i. alts ! i) (find_peaks alts))
                               (map (\<lambda>i. ts ! i) (find_peaks alts)))
                  else Some (Inr (map (\<lambda>i. alts ! i) (find_peaks alts),
                                  map (\<lambda>i. ts ! i) (find_peaks alts))))"
    by (simp add: Get_All_Apoapsis_In_Range_eq)
next
  have gt: "(2::int) < int (length [a1, a2, a3])" by simp
  have done2: "reduce_apoapses 0 (140 * 60000000) 2 [b1, b2] [t1, t2] = Inr ([b1, b2], [t1, t2])"
    for b1 b2 :: real and t1 t2 :: int
    by (rule reduce_apoapses_done) simp
  from reduce_apoapses_step[OF gt, of "[10 * 60000000, 70 * 60000000, 130 * 60000000]" 0 "140 * 60000000"]
  show "reduce_apoapses 0 (140 * 60000000) 2 [a1, a2, a3]
            [10 * 60000000, 70 * 60000000, 130 * 60000000] = Inl ValueError"
    by (simp add: divide_and_round_def Let_def)
  from reduce_apoapses_step[OF gt, of "[10 * 60000000, 70 * 60000000, 100 * 60000000]" 0 "140 * 60000000"]
    done2[of a2 a3 "70 * 60000000" "100 * 60000000"]
  show "reduce_apoapses 0 (140 * 60000000) 2 [a1, a2, a3]
        [10 * 60000000, 70 * 60000000, 100 * 60000000]
        = Inr ([a2, a3], [70 * 60000000, 100 * 60000000])"
    by (simp add: divide_and_round_def Let_def)
  from reduce_apoapses_step[OF gt, of "[40 * 60000000, 70 * 60000000, 130 * 60000000]" 0 "140 * 60000000"]
    done2[of a1 a2 "40 * 60000000" "70 * 60000000"]
  show "reduce_apoapses 0 (140 * 60000000) 2 [a1, a2, a3]
        [40 * 60000000, 70 * 60000000, 130 * 60000000]
        = Inr ([a1, a2], [40 * 60000000, 70 * 60000000])"
    by (simp add: divide_and_round_def Let_def)
qed

lemma three_apoapses_samples:
  "sample_altitudes
      (synthetic_provider (\<lambda>t. if t = 600 \<or> t = 4200 \<or> t = 7800 then 1 else 0)) ''MESSENGER''
      0 (140 * 60000000) (5 * 60000000) [] []
    = Some (Inr ([0, 0, 1, 0, 0, 0, 0, 0, 0, 0, 0, 0, 0, 0, 1, 0, 0, 0, 0, 0, 0, 0, 0, 0, 0, 0, 1, 0],
                 map (\<lambda>k. k * 300000000) [0..27]))"
  by (simp add: sample_altitudes.simps altitude_at_synthetic datetime_add_def datetime_max_def
      upto.simps)

lemma three_apoapses_peaks:
  "find_peaks [0, 0, 1, 0, 0, 0, 0, 0, 0, 0, 0, 0, 0, 0, 1, 0, 0, 0, 0, 0, 0, 0, 0, 0, 0, 0, 1, 0]
     = [2, 14, 26]"
  by (simp add: find_peaks_def local_maxima_1d.simps look_ahead.simps)

lemma early_apoapses_samples:
  "sample_altitudes
      (synthetic_provider (\<lambda>t. if t = 600 \<or> t = 4200 \<or> t = 6000 then 1 else 0)) ''MESSENGER''
      0 (140 * 60000000) (5 * 60000000) [] []
    = Some (Inr ([0, 0, 1, 0, 0, 0, 0, 0, 0, 0, 0, 0, 0, 0, 1, 0, 0, 0, 0, 0, 1, 0, 0, 0, 0, 0, 0, 0],
                 map (\<lambda>k. k * 300000000) [0..27]))"
  by (simp add: sample_altitudes.simps altitude_at_synthetic datetime_add_def datetime_max_def
      upto.simps)

lemma early_apoapses_peaks:
  "find_peaks [0, 0, 1, 0, 0, 0, 0, 0, 0, 0, 0, 0, 0, 0, 1, 0, 0, 0, 0, 0, 1, 0, 0, 0, 0, 0, 0, 0]
     = [2, 14, 20]"
  by (simp add: find_peaks_def local_maxima_1d.simps look_ahead.simps)

theorem reduce_apoapses_removes_farther_end_witness:
  "Get_All_Apoapsis_In_Range
      (synthetic_provider (\<lambda>t. if t = 600 \<or> t = 4200 \<or> t = 7800 then 1 else 0))
      0 (140 * 60000000) (5 * 60000000) 2 ''MESSENGER'' = Some (Inl ValueError)
   \<and> Get_All_Apoapsis_In_Range
      (synthetic_provider (\<lambda>t. if t = 600 \<or> t = 4200 \<or> t = 7800 then 1 else 0))
      0 (140 * 60000000) (5 * 60000000) 0 ''MESSENGER''
       = Some (Inr ([1, 1, 1], [10 * 60000000, 70 * 60000000, 130 * 60000000]))
   \<and> Get_All_Apoapsis_In_Range
      (synthetic_provider (\<lambda>t. if t = 600 \<or> t = 4200 \<or> t = 6000 then 1 else 0))
      0 (140 * 60000000) (5 * 60000000) 2 ''MESSENGER''
       = Some (Inr ([1, 1], [70 * 60000000, 100 * 60000000]))
   \<and> Get_All_Apoapsis_In_Range
      (synthetic_provider (\<lambda>t. if t = 600 \<or> t = 4200 \<or> t = 6000 then 1 else 0))
      0 (140 * 60000000) (5 * 60000000) 3 ''MESSENGER''
       = Some (Inr ([1, 1, 1], [10 * 60000000, 70 * 60000000, 100 * 60000000]))"
proof -
  let ?p = "synthetic_provider (\<lambda>t. if t = 600 \<or> t = 4200 \<or> t = 7800 then 1 else 0)"
  let ?q = "synthetic_provider (\<lambda>t. if t = 600 \<or> t = 4200 \<or> t = 6000 then 1 else 0)"
  note tie = reduce_apoapses_removes_farther_end[
      of 2 "[1, 1, 1]" "[10 * 60000000, 70 * 60000000, 130 * 60000000]"
         0 "140 * 60000000" ?p "''MESSENGER''" "5 * 60000000" 1 1 1]
  note off = reduce_apoapses_removes_farther_end[
      of 0 "[1, 1, 1]" "[10 * 60000000, 70 * 60000000, 130 * 60000000]"
         0 "140 * 60000000" ?p "''MESSENGER''" "5 * 60000000" 1 1 1]
  note rem = reduce_apoapses_removes_farther_end[
      of 2 "[1, 1, 1]" "[10 * 60000000, 70 * 60000000, 100 * 60000000]"
         0 "140 * 60000000" ?q "''MESSENGER''" "5 * 60000000" 1 1 1]
  note keep = reduce_apoapses_removes_farther_end[
      of 3 "[1, 1, 1]" "[10 * 60000000, 70 * 60000000, 100 * 60000000]"
         0 "140 * 60000000" ?q "''MESSENGER''" "5 * 60000000" 1 1 1]
  from tie three_apoapses_samples
  have "Get_All_Apoapsis_In_Range ?p 0 (140 * 60000000) (5 * 60000000) 2 ''MESSENGER''
      = Some (reduce_apoapses 0 (140 * 60000000) 2 [1, 1, 1]
                [10 * 60000000, 70 * 60000000, 130 * 60000000])"
    by (simp add: three_apoapses_peaks upto.simps)
  moreover from tie have "reduce_apoapses 0 (140 * 60000000) 2 [1, 1, 1]
                [10 * 60000000, 70 * 60000000, 130 * 60000000] = Inl ValueError"
    by blast
  moreover from off three_apoapses_samples
  have "Get_All_Apoapsis_In_Range ?p 0 (140 * 60000000) (5 * 60000000) 0 ''MESSENGER''
       = Some (Inr ([1, 1, 1], [10 * 60000000, 70 * 60000000, 130 * 60000000]))"
    by (simp add: three_apoapses_peaks upto.simps)
  moreover from rem early_apoapses_samples
  have "Get_All_Apoapsis_In_Range ?q 0 (140 * 60000000) (5 * 60000000) 2 ''MESSENGER''
      = Some (reduce_apoapses 0 (140 * 60000000) 2 [1, 1, 1]
                [10 * 60000000, 70 * 60000000, 100 * 60000000])"
    by (simp add: early_apoapses_peaks upto.simps)
  moreover from rem have "reduce_apoapses 0 (140 * 60000000) 2 [1, 1, 1]
                [10 * 60000000, 70 * 60000000, 100 * 60000000]
       = Inr ([1, 1], [70 * 60000000, 100 * 60000000])"
    by blast
  moreover from keep early_apoapses_samples
  have "Get_All_Apoapsis_In_Range ?q 0 (140 * 60000000) (5 * 60000000) 3 ''MESSENGER''
      = Some (reduce_apoapses 0 (140 * 60000000) 3 [1, 1, 1]
                [10 * 60000000, 70 * 60000000, 100 * 60000000])"
    by (simp add: early_apoapses_peaks upto.simps)
  moreover from keep have "reduce_apoapses 0 (140 * 60000000) 3 [1, 1, 1]
                [10 * 60000000, 70 * 60000000, 100 * 60000000]
       = Inr ([1, 1, 1], [10 * 60000000, 70 * 60000000, 100 * 60000000])"
    by simp
  ultimately show ?thesis by simp
qed

text \<open>
  C3, as stated, fails when the interval has an odd number of microseconds. Over 140
  minutes and one microsecond, with peaks at minutes 10, 70 and 130, the first peak is
  strictly farther from the midpoint of the interval than the last; the rounded midpoint
  is minute 70 exactly, both ends are 60 minutes from it, and the reduction raises
  ValueError and removes nothing.
\<close>

lemma odd_interval_samples:
  "sample_altitudes
      (synthetic_provider (\<lambda>t. if t = 600 \<or> t = 4200 \<or> t = 7800 then 1 else 0)) ''MESSENGER''
      0 (140 * 60000000 + 1) (5 * 60000000) [] []
    = Some (Inr ([0, 0, 1, 0, 0, 0, 0, 0, 0, 0, 0, 0, 0, 0, 1, 0, 0, 0, 0, 0, 0, 0, 0, 0, 0, 0, 1, 0, 0],
                 map (\<lambda>k. k * 300000000) [0..28]))"
  by (simp add: sample_altitudes.simps altitude_at_synthetic datetime_add_def datetime_max_def
      upto.simps)

lemma odd_interval_peaks:
  "find_peaks [0, 0, 1, 0, 0, 0, 0, 0, 0, 0, 0, 0, 0, 0, 1, 0, 0, 0, 0, 0, 0, 0, 0, 0, 0, 0, 1, 0, 0]
     = [2, 14, 26]"
  by (simp add: find_peaks_def local_maxima_1d.simps look_ahead.simps)

theorem odd_interval_tie_at_rounded_midpoint:
  "Get_All_Apoapsis_In_Range
      (synthetic_provider (\<lambda>t. if t = 600 \<or> t = 4200 \<or> t = 7800 then 1 else 0))
      0 (140 * 60000000 + 1) (5 * 60000000) 0 ''MESSENGER''
       = Some (Inr ([1, 1, 1], [10 * 60000000, 70 * 60000000, 130 * 60000000]))
   \<and> \<bar>real_of_int (10 * 60000000) - (0 + real_of_int (140 * 60000000 + 1)) / 2\<bar>
       > \<bar>real_of_int (130 * 60000000) - (0 + real_of_int (140 * 60000000 + 1)) / 2\<bar>
   \<and> Get_All_Apoapsis_In_Range
      (synthetic_provider (\<lambda>t. if t = 600 \<or> t = 4200 \<or> t = 7800 then 1 else 0))
      0 (140 * 60000000 + 1) (5 * 60000000) 2 ''MESSENGER'' = Some (Inl ValueError)"
proof -
  let ?p = "synthetic_provider (\<lambda>t. if t = 600 \<or> t = 4200 \<or> t = 7800 then 1 else 0)"
  have gt: "(2::int) < int (length [1, 1, 1 :: real])" by simp
  from reduce_apoapses_step[OF gt,
      of "[10 * 60000000, 70 * 60000000, 130 * 60000000]" 0 "140 * 60000000 + 1"]
  have r: "reduce_apoapses 0 (140 * 60000000 + 1) 2 [1, 1, 1]
             [10 * 60000000, 70 * 60000000, 130 * 60000000] = Inl ValueError"
    by (simp add: divide_and_round_def Let_def)
  have "Get_All_Apoapsis_In_Range ?p 0 (140 * 60000000 + 1) (5 * 60000000) 0 ''MESSENGER''
       = Some (Inr ([1, 1, 1], [10 * 60000000, 70 * 60000000, 130 * 60000000]))"
    using Get_All_Apoapsis_In_Range_eq[OF odd_interval_samples, of 0]
    by (simp add: odd_interval_peaks upto.simps)
  moreover have "Get_All_Apoapsis_In_Range ?p 0 (140 * 60000000 + 1) (5 * 60000000) 2 ''MESSENGER''
       = Some (Inl ValueError)"
    using Get_All_Apoapsis_In_Range_eq[OF odd_interval_samples, of 2] r
    by (simp add: odd_interval_peaks upto.simps)
  ultimately show ?thesis by simp
qed

lemma find_peaks_short: "length x \<le> 2 \<Longrightarrow> find_peaks x = []"
  unfolding find_peaks_def by (subst local_maxima_1d.simps) auto

lemma find_peaks_nth_mono:
  assumes "j < k" and "k < length (find_peaks x)"
  shows "find_peaks x ! j < find_peaks x ! k"
proof -
  have "sorted_wrt (<) (find_peaks x)"
    unfolding find_peaks_def by (rule local_maxima_1d_sorted) simp
  with assms show ?thesis by (simp add: sorted_wrt_iff_nth_less)
qed

lemma sample_window:
  assumes d: "0 < delta"
    and sa: "sample_altitudes p sc s e delta [] [] = Some (Inr (alts, ts))"
  shows "\<exists>n. ts = map (\<lambda>k. s + int k * delta) [0..<n] \<and> length alts = n
           \<and> map (altitude_at p sc) ts = map Inr alts
           \<and> (\<forall>k<n. s + int k * delta < e) \<and> e \<le> s + int n * delta"
proof -
  from sample_altitudes_shape[OF d sa] obtain n B where
    ts: "ts = [] @ map (\<lambda>k. s + int k * delta) [0..<n]" and alts: "alts = [] @ B"
    and m: "map (altitude_at p sc) (map (\<lambda>k. s + int k * delta) [0..<n]) = map Inr B"
    and b: "\<forall>k<n. s + int k * delta < e" "e \<le> s + int n * delta"
    by blast
  from arg_cong[OF m, of length] have "length B = n" by simp
  with ts alts m b show ?thesis by (intro exI[of _ n]) simp
qed

text \<open>
  C4. With a positive step, \<open>Get_Nearest_Apoapsis\<close> returns; what it returns comes from the
  altitudes sampled at \<open>reference - limit + k * step\<close> for exactly the \<open>k\<close> that keep the time
  in the half-open window from \<open>reference - limit\<close> to \<open>reference + limit\<close>; the peak
  returned has the least absolute time difference from the reference among the detected
  peaks, and every peak detected earlier in time is strictly farther. Whenever the sampling
  succeeds and a peak is detected, the call returns that peak's time and altitude; an
  exception of the sampling is passed on. With detected peaks at \<open>reference - 3h\<close> and
  \<open>reference + 1h\<close> it returns the peak at \<open>reference + 1h\<close>.
\<close>

theorem Get_Nearest_Apoapsis_closest_peak:
  "(0 < time_delta \<longrightarrow> (\<exists>r. Get_Nearest_Apoapsis p time time_delta time_limit spacecraft = Some r))
   \<and> (\<forall>t a. 0 < time_delta
          \<and> Get_Nearest_Apoapsis p time time_delta time_limit spacecraft = Some (Inr (t, a)) \<longrightarrow>
        (\<exists>n alts.
            (\<forall>k<n. time - time_limit + int k * time_delta < time + time_limit)
          \<and> time + time_limit \<le> time - time_limit + int n * time_delta
          \<and> map (altitude_at p spacecraft) (map (\<lambda>k. time - time_limit + int k * time_delta) [0..<n])
               = map Inr alts
          \<and> (\<exists>k<length (find_peaks alts).
                t = time - time_limit + int (find_peaks alts ! k) * time_delta
              \<and> a = alts ! (find_peaks alts ! k)
              \<and> (\<forall>j<length (find_peaks alts).
                    \<bar>time - t\<bar> \<le> \<bar>time - (time - time_limit + int (find_peaks alts ! j) * time_delta)\<bar>)
              \<and> (\<forall>j<k.
                    \<bar>time - t\<bar> < \<bar>time - (time - time_limit + int (find_peaks alts ! j) * time_delta)\<bar>
                  \<and> time - time_limit + int (find_peaks alts ! j) * time_delta < t))))
   \<and> (\<forall>alts ts i j.
          datetime_add time (- time_limit) = Inr (time - time_limit)
        \<and> datetime_add time time_limit = Inr (time + time_limit)
        \<and> sample_altitudes p spacecraft (time - time_limit) (time + time_limit) time_delta [] []
             = Some (Inr (alts, ts))
        \<and> find_peaks alts = [i, j]
        \<and> ts ! i = time - 3 * 3600000000 \<and> ts ! j = time + 3600000000
        \<longrightarrow> Get_Nearest_Apoapsis p time time_delta time_limit spacecraft
              = Some (Inr (time + 3600000000, alts ! j)))
   \<and> (\<forall>alts ts.
          datetime_add time (- time_limit) = Inr (time - time_limit)
        \<and> datetime_add time time_limit = Inr (time + time_limit)
        \<and> sample_altitudes p spacecraft (time - time_limit) (time + time_limit) time_delta [] []
             = Some (Inr (alts, ts))
        \<and> find_peaks alts \<noteq> []
        \<longrightarrow> (\<exists>k<length (find_peaks alts).
               Get_Nearest_Apoapsis p time time_delta time_limit spacecraft
                 = Some (Inr (ts ! (find_peaks alts ! k), alts ! (find_peaks alts ! k)))
             \<and> (\<forall>j<length (find_peaks alts).
                   \<bar>time - ts ! (find_peaks alts ! k)\<bar> \<le> \<bar>time - ts ! (find_peaks alts ! j)\<bar>)
             \<and> (\<forall>j<k.
                   \<bar>time - ts ! (find_peaks alts ! k)\<bar> < \<bar>time - ts ! (find_peaks alts ! j)\<bar>)))
   \<and> (\<forall>e.
          datetime_add time (- time_limit) = Inr (time - time_limit)
        \<and> datetime_add time time_limit = Inr (time + time_limit)
        \<and> sample_altitudes p spacecraft (time - time_limit) (time + time_limit) time_delta [] []
             = Some (Inl e)
        \<longrightarrow> Get_Nearest_Apoapsis p time time_delta time_limit spacecraft = Some (Inl e))"
proof (intro conjI allI impI)
  assume "0 < time_delta"
  then show "\<exists>r. Get_Nearest_Apoapsis p time time_delta time_limit spacecraft = Some r"
    by (rule Get_Nearest_Apoapsis_returns)
next
  fix t a
  assume h: "0 < time_delta
          \<and> Get_Nearest_Apoapsis p time time_delta time_limit spacecraft = Some (Inr (t, a))"
  then have d: "0 < time_delta"
    and r: "Get_Nearest_Apoapsis p time time_delta time_limit spacecraft = Some (Inr (t, a))"
    by simp_all
  let ?s = "time - time_limit"
  from Get_Nearest_Apoapsis_InrD[OF r] obtain alts ts k where
    sa: "sample_altitudes p spacecraft ?s (time + time_limit) time_delta [] [] = Some (Inr (alts, ts))"
    and k: "argmin (map (\<lambda>i. \<bar>time - ts ! i\<bar>) (find_peaks alts)) = Inr k"
    and ta: "t = ts ! (find_peaks alts ! k)" "a = alts ! (find_peaks alts ! k)"
    by blast
  let ?pk = "find_peaks alts"
  from sample_window[OF d sa] obtain n where
    ts: "ts = map (\<lambda>k. ?s + int k * time_delta) [0..<n]" and len: "length alts = n"
    and m: "map (altitude_at p spacecraft) ts = map Inr alts"
    and b: "\<forall>k<n. ?s + int k * time_delta < time + time_limit"
       "time + time_limit \<le> ?s + int n * time_delta"
    by blast
  have inb: "?pk ! i < n" if "i < length ?pk" for i
  proof -
    from that have "?pk ! i \<in> set ?pk" by simp
    from find_peaks_neighbours[OF this] len show ?thesis by simp
  qed
  have tsn: "ts ! (?pk ! i) = ?s + int (?pk ! i) * time_delta" if "i < length ?pk" for i
    using inb[OF that] unfolding ts by simp
  from argmin_spec[OF k] have kl: "k < length ?pk" by simp
  have mn: "\<bar>time - ts ! (?pk ! k)\<bar> \<le> \<bar>time - ts ! (?pk ! j)\<bar>" if "j < length ?pk" for j
    using argmin_spec[OF k] that kl by (auto dest!: spec[of _ j])
  have fst: "\<bar>time - ts ! (?pk ! k)\<bar> < \<bar>time - ts ! (?pk ! j)\<bar>" if "j < k" for j
    using argmin_spec[OF k] that kl by (auto dest!: spec[of _ j])
  have t: "t = ?s + int (?pk ! k) * time_delta" using ta(1) tsn[OF kl] by simp
  have c1: "\<forall>j<length ?pk. \<bar>time - t\<bar> \<le> \<bar>time - (?s + int (?pk ! j) * time_delta)\<bar>"
  proof (intro allI impI)
    fix j assume j: "j < length ?pk"
    from mn[OF j] have "\<bar>time - ts ! (?pk ! k)\<bar> \<le> \<bar>time - ts ! (?pk ! j)\<bar>" .
    then show "\<bar>time - t\<bar> \<le> \<bar>time - (?s + int (?pk ! j) * time_delta)\<bar>"
      unfolding ta(1) tsn[OF j] .
  qed
  have c2: "\<forall>j<k. \<bar>time - t\<bar> < \<bar>time - (?s + int (?pk ! j) * time_delta)\<bar>
                  \<and> ?s + int (?pk ! j) * time_delta < t"
  proof (intro allI impI conjI)
    fix j assume j: "j < k"
    with kl have jl: "j < length ?pk" by simp
    from fst[OF j] have "\<bar>time - ts ! (?pk ! k)\<bar> < \<bar>time - ts ! (?pk ! j)\<bar>" .
    then show "\<bar>time - t\<bar> < \<bar>time - (?s + int (?pk ! j) * time_delta)\<bar>"
      unfolding ta(1) tsn[OF jl] .
    from find_peaks_nth_mono[OF j kl] have "int (?pk ! j) < int (?pk ! k)" by simp
    with d have "int (?pk ! j) * time_delta < int (?pk ! k) * time_delta"
      by simp
    then show "?s + int (?pk ! j) * time_delta < t" unfolding t by simp
  qed
  from m have m': "map (altitude_at p spacecraft) (map (\<lambda>k. ?s + int k * time_delta) [0..<n])
               = map Inr alts" unfolding ts .
  from kl t ta(2) c1 c2 have
    "\<exists>k<length ?pk. t = ?s + int (?pk ! k) * time_delta \<and> a = alts ! (?pk ! k)
       \<and> (\<forall>j<length ?pk. \<bar>time - t\<bar> \<le> \<bar>time - (?s + int (?pk ! j) * time_delta)\<bar>)
       \<and> (\<forall>j<k. \<bar>time - t\<bar> < \<bar>time - (?s + int (?pk ! j) * time_delta)\<bar>
                  \<and> ?s + int (?pk ! j) * time_delta < t)"
    by blast
  with b m'
  show "\<exists>n alts.
            (\<forall>k<n. time - time_limit + int k * time_delta < time + time_limit)
          \<and> time + time_limit \<le> time - time_limit + int n * time_delta
          \<and> map (altitude_at p spacecraft) (map (\<lambda>k. time - time_limit + int k * time_delta) [0..<n])
               = map Inr alts
          \<and> (\<exists>k<length (find_peaks alts).
                t = time - time_limit + int (find_peaks alts ! k) * time_delta
              \<and> a = alts ! (find_peaks alts ! k)
              \<and> (\<forall>j<length (find_peaks alts).
                    \<bar>time - t\<bar> \<le> \<bar>time - (time - time_limit + int (find_peaks alts ! j) * time_delta)\<bar>)
              \<and> (\<forall>j<k.
                    \<bar>time - t\<bar> < \<bar>time - (time - time_limit + int (find_peaks alts ! j) * time_delta)\<bar>
                  \<and> time - time_limit + int (find_peaks alts ! j) * time_delta < t))"
    by blast
next
  fix alts ts i j
  assume h: "datetime_add time (- time_limit) = Inr (time - time_limit)
        \<and> datetime_add time time_limit = Inr (time + time_limit)
        \<and> sample_altitudes p spacecraft (time - time_limit) (time + time_limit) time_delta [] []
             = Some (Inr (alts, ts))
        \<and> find_peaks alts = [i, j]
        \<and> ts ! i = time - 3 * 3600000000 \<and> ts ! j = time + 3600000000"
  then have a: "datetime_add time (- time_limit) = Inr (time - time_limit)"
    "datetime_add time time_limit = Inr (time + time_limit)"
    "sample_altitudes p spacecraft (time - time_limit) (time + time_limit) time_delta [] []
             = Some (Inr (alts, ts))"
    and pk: "find_peaks alts = [i, j]"
    and ti: "ts ! i = time - 3 * 3600000000" and tj: "ts ! j = time + 3600000000"
    by blast+
  show "Get_Nearest_Apoapsis p time time_delta time_limit spacecraft
              = Some (Inr (time + 3600000000, alts ! j))"
    unfolding Get_Nearest_Apoapsis_eq[OF a] pk
    by (simp add: ti tj argmin_def)
next
  fix alts ts
  assume h: "datetime_add time (- time_limit) = Inr (time - time_limit)
        \<and> datetime_add time time_limit = Inr (time + time_limit)
        \<and> sample_altitudes p spacecraft (time - time_limit) (time + time_limit) time_delta [] []
             = Some (Inr (alts, ts))
        \<and> find_peaks alts \<noteq> []"
  then have a: "datetime_add time (- time_limit) = Inr (time - time_limit)"
    "datetime_add time time_limit = Inr (time + time_limit)"
    "sample_altitudes p spacecraft (time - time_limit) (time + time_limit) time_delta [] []
             = Some (Inr (alts, ts))"
    and ne: "find_peaks alts \<noteq> []"
    by blast+
  let ?pk = "find_peaks alts"
  let ?ds = "map (\<lambda>i. \<bar>time - ts ! i\<bar>) ?pk"
  from ne have "?ds \<noteq> []" by simp
  from argmin_nonempty[OF this] obtain k where k: "argmin ?ds = Inr k" by blast
  from argmin_spec[OF k] have kl: "k < length ?pk" by simp
  have mn: "\<bar>time - ts ! (?pk ! k)\<bar> \<le> \<bar>time - ts ! (?pk ! j)\<bar>" if "j < length ?pk" for j
    using argmin_spec[OF k] that kl by (auto dest!: spec[of _ j])
  have fst: "\<bar>time - ts ! (?pk ! k)\<bar> < \<bar>time - ts ! (?pk ! j)\<bar>" if "j < k" for j
    using argmin_spec[OF k] that kl by (auto dest!: spec[of _ j])
  have "Get_Nearest_Apoapsis p time time_delta time_limit spacecraft
          = Some (Inr (ts ! (?pk ! k), alts ! (?pk ! k)))"
    unfolding Get_Nearest_Apoapsis_eq[OF a] k by simp
  with kl mn fst
  show "\<exists>k<length (find_peaks alts).
               Get_Nearest_Apoapsis p time time_delta time_limit spacecraft
                 = Some (Inr (ts ! (find_peaks alts ! k), alts ! (find_peaks alts ! k)))
             \<and> (\<forall>j<length (find_peaks alts).
                   \<bar>time - ts ! (find_peaks alts ! k)\<bar> \<le> \<bar>time - ts ! (find_peaks alts ! j)\<bar>)
             \<and> (\<forall>j<k.
                   \<bar>time - ts ! (find_peaks alts ! k)\<bar> < \<bar>time - ts ! (find_peaks alts ! j)\<bar>)"
    by blast
next
  fix e
  assume "datetime_add time (- time_limit) = Inr (time - time_limit)
        \<and> datetime_add time time_limit = Inr (time + time_limit)
        \<and> sample_altitudes p spacecraft (time - time_limit) (time + time_limit) time_delta [] []
             = Some (Inl e)"
  then show "Get_Nearest_Apoapsis p time time_delta time_limit spacecraft = Some (Inl e)"
    by (simp add: Get_Nearest_Apoapsis_def)
qed

lemma two_peaks_samples:
  "sample_altitudes (synthetic_provider (\<lambda>t. if t = 3600 \<or> t = 18000 then 1 else 0)) ''MESSENGER''
      (14400000000 - 14400000000) (14400000000 + 14400000000) 3600000000 [] []
    = Some (Inr ([0, 1, 0, 0, 0, 1, 0, 0],
         [0, 3600000000, 7200000000, 10800000000, 14400000000, 18000000000, 21600000000,
          25200000000]))"
  by (simp add: sample_altitudes.simps altitude_at_synthetic datetime_add_def datetime_max_def)

lemma two_peaks: "find_peaks [0, 1, 0, 0, 0, 1, 0, 0] = [1, 5]"
  by (simp add: find_peaks_def local_maxima_1d.simps look_ahead.simps)

lemma one_peak_samples:
  "sample_altitudes (synthetic_provider (\<lambda>t. if t = 18000 then 1 else 0)) ''MESSENGER''
      (14400000000 - 14400000000) (14400000000 + 14400000000) 3600000000 [] []
    = Some (Inr ([0, 0, 0, 0, 0, 1, 0, 0],
         [0, 3600000000, 7200000000, 10800000000, 14400000000, 18000000000, 21600000000,
          25200000000]))"
  by (simp add: sample_altitudes.simps altitude_at_synthetic datetime_add_def datetime_max_def)

lemma one_peak: "find_peaks [0, 0, 0, 0, 0, 1, 0, 0] = [5]"
  by (simp add: find_peaks_def local_maxima_1d.simps look_ahead.simps)

theorem Get_Nearest_Apoapsis_closest_peak_witness:
  "Get_Nearest_Apoapsis (synthetic_provider (\<lambda>t. if t = 3600 \<or> t = 18000 then 1 else 0))
      14400000000 3600000000 14400000000 ''MESSENGER''
     = Some (Inr (14400000000 + 3600000000, 1))
   \<and> Get_Nearest_Apoapsis (synthetic_provider (\<lambda>t. if t = 18000 then 1 else 0))
      14400000000 3600000000 14400000000 ''MESSENGER''
     = Some (Inr (18000000000, 1))"
proof -
  let ?p = "synthetic_provider (\<lambda>t. if t = 3600 \<or> t = 18000 then 1 else 0)"
  let ?q = "synthetic_provider (\<lambda>t. if t = 18000 then 1 else 0)"
  let ?ts = "[0, 3600000000, 7200000000, 10800000000, 14400000000, 18000000000, 21600000000,
          25200000000] :: int list"
  have "datetime_add 14400000000 (- 14400000000) = Inr (14400000000 - 14400000000)
        \<and> datetime_add 14400000000 14400000000 = Inr (14400000000 + 14400000000)
        \<and> sample_altitudes ?p ''MESSENGER'' (14400000000 - 14400000000) (14400000000 + 14400000000)
             3600000000 [] []
             = Some (Inr ([0, 1, 0, 0, 0, 1, 0, 0], ?ts))
        \<and> find_peaks [0, 1, 0, 0, 0, 1, 0, 0] = [1, 5]
        \<and> ?ts ! 1 = 14400000000 - 3 * 3600000000 \<and> ?ts ! 5 = 14400000000 + 3600000000"
    using two_peaks_samples two_peaks by (simp add: datetime_add_def datetime_max_def)
  with Get_Nearest_Apoapsis_closest_peak[of 3600000000 ?p 14400000000 14400000000 "''MESSENGER''"]
  have "Get_Nearest_Apoapsis ?p 14400000000 3600000000 14400000000 ''MESSENGER''
     = Some (Inr (14400000000 + 3600000000, [0, 1, 0, 0, 0, 1, 0, 0] ! 5))"
    by blast
  then have two: "Get_Nearest_Apoapsis ?p 14400000000 3600000000 14400000000 ''MESSENGER''
     = Some (Inr (14400000000 + 3600000000, 1))" by simp
  have "datetime_add 14400000000 (- 14400000000) = Inr (14400000000 - 14400000000)
        \<and> datetime_add 14400000000 14400000000 = Inr (14400000000 + 14400000000)
        \<and> sample_altitudes ?q ''MESSENGER'' (14400000000 - 14400000000) (14400000000 + 14400000000)
             3600000000 [] []
             = Some (Inr ([0, 0, 0, 0, 0, 1, 0, 0], ?ts))
        \<and> find_peaks [0, 0, 0, 0, 0, 1, 0, 0] \<noteq> []"
    using one_peak_samples one_peak by (simp add: datetime_add_def datetime_max_def)
  with Get_Nearest_Apoapsis_closest_peak[of 3600000000 ?q 14400000000 14400000000 "''MESSENGER''"]
  have "\<exists>k<length (find_peaks [0, 0, 0, 0, 0, 1, 0, 0]).
      Get_Nearest_Apoapsis ?q 14400000000 3600000000 14400000000 ''MESSENGER''
        = Some (Inr (?ts ! (find_peaks [0, 0, 0, 0, 0, 1, 0, 0] ! k),
                     [0, 0, 0, 0, 0, 1, 0, 0] ! (find_peaks [0, 0, 0, 0, 0, 1, 0, 0] ! k)))"
    by blast
  then have "Get_Nearest_Apoapsis ?q 14400000000 3600000000 14400000000 ''MESSENGER''
     = Some (Inr (18000000000, 1))"
    by (simp add: one_peak)
  with two show ?thesis by simp
qed

text \<open>
  C5. When no peak is detected in the search window, \<open>Get_Nearest_Apoapsis\<close> raises the
  ValueError of the minimum search over an empty sequence; a returned pair always comes from
  a detected peak; with a positive step the call returns; and a window of at most two
  samples never yields a pair.
\<close>

theorem Get_Nearest_Apoapsis_no_peak:
  "(\<forall>alts ts.
        datetime_add time (- time_limit) = Inr (time - time_limit)
      \<and> datetime_add time time_limit = Inr (time + time_limit)
      \<and> sample_altitudes p spacecraft (time - time_limit) (time + time_limit) time_delta [] []
           = Some (Inr (alts, ts))
      \<and> find_peaks alts = []
      \<longrightarrow> Get_Nearest_Apoapsis p time time_delta time_limit spacecraft = Some (Inl ValueError))
   \<and> (\<forall>t a. Get_Nearest_Apoapsis p time time_delta time_limit spacecraft = Some (Inr (t, a))
        \<longrightarrow> (\<exists>alts ts.
              sample_altitudes p spacecraft (time - time_limit) (time + time_limit) time_delta [] []
                = Some (Inr (alts, ts))
            \<and> find_peaks alts \<noteq> []))
   \<and> (0 < time_delta \<longrightarrow>
        (\<exists>r. Get_Nearest_Apoapsis p time time_delta time_limit spacecraft = Some r))
   \<and> (0 < time_delta \<and> time_limit \<le> time_delta \<longrightarrow>
        (\<forall>t a. Get_Nearest_Apoapsis p time time_delta time_limit spacecraft \<noteq> Some (Inr (t, a))))"
proof (intro conjI allI impI)
  fix alts ts
  assume h: "datetime_add time (- time_limit) = Inr (time - time_limit)
      \<and> datetime_add time time_limit = Inr (time + time_limit)
      \<and> sample_altitudes p spacecraft (time - time_limit) (time + time_limit) time_delta [] []
           = Some (Inr (alts, ts))
      \<and> find_peaks alts = []"
  then have a: "datetime_add time (- time_limit) = Inr (time - time_limit)"
    "datetime_add time time_limit = Inr (time + time_limit)"
    "sample_altitudes p spacecraft (time - time_limit) (time + time_limit) time_delta [] []
           = Some (Inr (alts, ts))"
    and pk: "find_peaks alts = []"
    by blast+
  show "Get_Nearest_Apoapsis p time time_delta time_limit spacecraft = Some (Inl ValueError)"
    unfolding Get_Nearest_Apoapsis_eq[OF a] pk by (simp add: argmin_empty)
next
  fix t a
  assume r: "Get_Nearest_Apoapsis p time time_delta time_limit spacecraft = Some (Inr (t, a))"
  from Get_Nearest_Apoapsis_InrD[OF r] obtain alts ts k where
    sa: "sample_altitudes p spacecraft (time - time_limit) (time + time_limit) time_delta [] []
           = Some (Inr (alts, ts))"
    and k: "argmin (map (\<lambda>i. \<bar>time - ts ! i\<bar>) (find_peaks alts)) = Inr k"
    by blast
  from argmin_spec[OF k] have "find_peaks alts \<noteq> []" by auto
  with sa show "\<exists>alts ts.
              sample_altitudes p spacecraft (time - time_limit) (time + time_limit) time_delta [] []
                = Some (Inr (alts, ts))
            \<and> find_peaks alts \<noteq> []"
    by blast
next
  assume "0 < time_delta"
  then show "\<exists>r. Get_Nearest_Apoapsis p time time_delta time_limit spacecraft = Some r"
    by (rule Get_Nearest_Apoapsis_returns)
next
  fix t a
  assume h: "0 < time_delta \<and> time_limit \<le> time_delta"
  show "Get_Nearest_Apoapsis p time time_delta time_limit spacecraft \<noteq> Some (Inr (t, a))"
  proof
    assume r: "Get_Nearest_Apoapsis p time time_delta time_limit spacecraft = Some (Inr (t, a))"
    from Get_Nearest_Apoapsis_InrD[OF r] obtain alts ts k where
      sa: "sample_altitudes p spacecraft (time - time_limit) (time + time_limit) time_delta [] []
             = Some (Inr (alts, ts))"
      and k: "argmin (map (\<lambda>i. \<bar>time - ts ! i\<bar>) (find_peaks alts)) = Inr k"
      by blast
    from h have d: "0 < time_delta" by simp
    from sample_window[OF d sa] obtain n where len: "length alts = n"
      and b: "\<forall>k<n. time - time_limit + int k * time_delta < time + time_limit"
      by blast
    have "n \<le> 2"
    proof (rule ccontr)
      assume "\<not> n \<le> 2"
      then have "2 < n" by simp
      with b have "time - time_limit + int 2 * time_delta < time + time_limit" by blast
      with h show False by simp
    qed
    with len have "find_peaks alts = []" by (simp add: find_peaks_short)
    with k show False by (simp add: argmin_empty)
  qed
qed

lemma flat_samples:
  "sample_altitudes (synthetic_provider (\<lambda>t. 1)) ''MESSENGER''
      (14400000000 - 7200000000) (14400000000 + 7200000000) 3600000000 [] []
    = Some (Inr ([1, 1, 1, 1], [7200000000, 10800000000, 14400000000, 18000000000]))"
  by (simp add: sample_altitudes.simps altitude_at_synthetic datetime_add_def datetime_max_def)

lemma flat_peaks: "find_peaks [1, 1, 1, 1] = []"
  by (simp add: find_peaks_def local_maxima_1d.simps look_ahead.simps)

theorem Get_Nearest_Apoapsis_no_peak_witness:
  "Get_Nearest_Apoapsis (synthetic_provider (\<lambda>t. 1)) 14400000000 3600000000 7200000000 ''MESSENGER''
     = Some (Inl ValueError)"
proof -
  let ?p = "synthetic_provider (\<lambda>t. 1)"
  have "datetime_add 14400000000 (- 7200000000) = Inr (14400000000 - 7200000000)
      \<and> datetime_add 14400000000 7200000000 = Inr (14400000000 + 7200000000)
      \<and> sample_altitudes ?p ''MESSENGER'' (14400000000 - 7200000000) (14400000000 + 7200000000)
           3600000000 [] []
           = Some (Inr ([1, 1, 1, 1], [7200000000, 10800000000, 14400000000, 18000000000]))
      \<and> find_peaks [1, 1, 1, 1] = []"
    using flat_samples flat_peaks by (simp add: datetime_add_def datetime_max_def)
  with Get_Nearest_Apoapsis_no_peak[of 14400000000 7200000000 ?p "''MESSENGER''" 3600000000]
  show ?thesis by blast
qed

end
